theory Spec2Isabelle
  imports Main
begin

section \<open>JavaScript values, truthiness and exceptions\<close>

text \<open>
  The TypeScript sources test optional values by truthiness: \<open>undefined\<close>, \<open>null\<close>, the
  empty string and the number \<open>0\<close> are falsy. An optional field is an \<open>option\<close>;
  the two functions below say when \<open>if (x)\<close> takes its then-branch.
\<close>

definition truthy_str :: "string option \<Rightarrow> bool" where
  "truthy_str x = (case x of None \<Rightarrow> False | Some s \<Rightarrow> s \<noteq> [])"


text \<open>\<open>a || b\<close> on optional strings: \<open>a\<close> when it is truthy, otherwise \<open>b\<close>.\<close>

definition or_else :: "string option \<Rightarrow> string option \<Rightarrow> string option" where
  "or_else a b = (if truthy_str a then a else b)"

text \<open>
  A thrown value is an \<open>Error\<close> with its message, an API error (an \<open>Error\<close> subclass
  carrying the HTTP status), or some value that is not an \<open>Error\<close>.
\<close>

datatype thrown = Error string | HttpError nat string | NonError

datatype 'a outcome = Returns 'a | Throws thrown

text \<open>JSON-like values handed to \<open>JSON.stringify\<close>; an object keeps its keys in insertion order.\<close>

datatype jsval =
    JUndefined
  | JNull
  | JBool bool
  | JNum int
  | JStr string
  | JArr "jsval list"
  | JObj "(string \<times> jsval) list"

section \<open>Account identifiers (AuthManager)\<close>

definition startsWith :: "string \<Rightarrow> string \<Rightarrow> bool" where
  "startsWith s p = (take (length p) s = p)"

text \<open>\<open>accountId.substring(4)\<close>\<close>

definition substring_from :: "nat \<Rightarrow> string \<Rightarrow> string" where
  "substring_from n s = drop n s"

definition getAccountId :: "string \<Rightarrow> string" where
  "getAccountId accountIdOrNumber =
     (if startsWith accountIdOrNumber ''act_'' then accountIdOrNumber
      else ''act_'' @ accountIdOrNumber)"

definition extractAccountNumber :: "string \<Rightarrow> string" where
  "extractAccountNumber accountId =
     (if startsWith accountId ''act_'' then substring_from 4 accountId else accountId)"

lemma startsWith_act_append: "startsWith (''act_'' @ s) ''act_''"
  by (simp add: startsWith_def)

text \<open>
  Claim C8. For every string \<open>s\<close>, \<open>getAccountId s\<close> starts with \<open>act_\<close>: it is \<open>s\<close>
  itself when \<open>s\<close> already starts with \<open>act_\<close> and \<open>act_\<close> followed by \<open>s\<close> otherwise;
  \<open>getAccountId\<close> is idempotent; and for every \<open>s\<close> that does not start with \<open>act_\<close>,
  \<open>extractAccountNumber (getAccountId s) = s\<close>.
\<close>

theorem getAccountId_prefix_idempotent_inverse:
  "startsWith (getAccountId s) ''act_''
   \<and> (startsWith s ''act_'' \<longrightarrow> getAccountId s = s)
   \<and> (\<not> startsWith s ''act_'' \<longrightarrow> getAccountId s = ''act_'' @ s)
   \<and> getAccountId (getAccountId s) = getAccountId s
   \<and> (\<not> startsWith s ''act_'' \<longrightarrow> extractAccountNumber (getAccountId s) = s)"
proof -
  have pre: "startsWith (getAccountId s) ''act_''"
    using startsWith_act_append by (simp add: getAccountId_def)
  have idem: "getAccountId (getAccountId s) = getAccountId s"
    using pre by (simp add: getAccountId_def)
  have inv: "\<not> startsWith s ''act_'' \<longrightarrow> extractAccountNumber (getAccountId s) = s"
    using startsWith_act_append
    by (simp add: getAccountId_def extractAccountNumber_def substring_from_def)
  show ?thesis using pre idem inv by (simp add: getAccountId_def)
qed

theorem getAccountId_witness:
  "\<not> startsWith ''1234567890'' ''act_''
   \<and> startsWith ''act_42'' ''act_''
   \<and> getAccountId ''1234567890'' = ''act_1234567890''
   \<and> getAccountId ''act_42'' = ''act_42''
   \<and> extractAccountNumber (getAccountId ''1234567890'') = ''1234567890''"
proof -
  have a: "\<not> startsWith ''1234567890'' ''act_''" by (simp add: startsWith_def)
  have b: "startsWith ''act_42'' ''act_''" by (simp add: startsWith_def)
  note t1 = getAccountId_prefix_idempotent_inverse [of "''1234567890''"]
  note t2 = getAccountId_prefix_idempotent_inverse [of "''act_42''"]
  have c: "getAccountId ''1234567890'' = ''act_1234567890''" using a t1 by simp
  have d: "getAccountId ''act_42'' = ''act_42''" using b t2 by blast
  have e: "extractAccountNumber (getAccountId ''1234567890'') = ''1234567890''"
    using a t1 by blast
  show ?thesis using a b c d e by blast
qed

section \<open>The in-memory storage adapter (SessionManager.createMemoryAdapter)\<close>

text \<open>
  The adapter keeps a \<open>Map\<close> from keys to items \<open>{ value, expiry? }\<close>. Times are
  milliseconds as \<open>Date.now()\<close> returns them; every clock read of the source is an explicit
  argument. The \<open>options?.ex\<close> argument of \<open>set\<close> is an optional number of seconds.
\<close>

record 'v mem_item =
  item_value :: 'v
  item_expiry :: "int option"

type_synonym 'v memory = "string \<Rightarrow> 'v mem_item option"

text \<open>\<open>const expiry = options?.ex ? Date.now() + options.ex * 1000 : undefined\<close>\<close>

definition memory_set :: "string \<Rightarrow> 'v \<Rightarrow> int option \<Rightarrow> int \<Rightarrow> 'v memory \<Rightarrow> 'v memory" where
  "memory_set key v ex now memory =
     (let expiry = (case ex of
                      None \<Rightarrow> None
                    | Some n \<Rightarrow> if n \<noteq> 0 then Some (now + n * 1000) else None)
      in memory(key \<mapsto> \<lparr>item_value = v, item_expiry = expiry\<rparr>))"

text \<open>\<open>if (item.expiry && Date.now() > item.expiry) { memory.delete(key); return null; }\<close>\<close>

definition memory_get :: "string \<Rightarrow> int \<Rightarrow> 'v memory \<Rightarrow> 'v option \<times> 'v memory" where
  "memory_get key now memory =
     (case memory key of
        None \<Rightarrow> (None, memory)
      | Some item \<Rightarrow>
          (case item_expiry item of
             None \<Rightarrow> (Some (item_value item), memory)
           | Some e \<Rightarrow>
               if e \<noteq> 0 \<and> now > e then (None, memory(key := None))
               else (Some (item_value item), memory)))"

definition memory_del :: "string \<Rightarrow> 'v memory \<Rightarrow> 'v memory" where
  "memory_del key memory = memory(key := None)"

section \<open>User sessions (SessionManager)\<close>

record AccountInfo =
  ai_id :: string
  ai_name :: string
  ai_currency :: string
  ai_status :: string
  ai_business :: "(string \<times> string) option"

record UserSession =
  us_sessionId :: string
  us_userId :: string
  us_email :: string
  us_name :: string
  us_metaUserId :: string
  us_accessToken :: string
  us_refreshToken :: "string option"
  us_tokenExpiration :: "int option"
  us_selectedAccountId :: "string option"
  us_availableAccounts :: "AccountInfo list"
  us_createdAt :: int
  us_lastUsed :: int

definition session_ttl :: int where
  "session_ttl = 7 * 24 * 60 * 60"

definition session_key :: "string \<Rightarrow> string" where
  "session_key sessionId = ''session:'' @ sessionId"

text \<open>
  \<open>createUserSession\<close>. \<open>new AuthManager({ accessToken })\<close> throws on a token that is
  given and shorter than ten characters; \<open>metaClient.getAdAccounts()\<close> is a call to the
  Graph API, whose answer for the token (the accounts, or an exception) is the argument
  \<open>getAdAccounts\<close>. The session id is the hex string of \<open>randomBytes(32)\<close>; \<open>t_created\<close>
  and \<open>t_used\<close> are the two \<open>new Date()\<close> of the session object, \<open>t_set\<close> and
  \<open>t_set2\<close> the clock reads inside the two \<open>storage.set\<close>. The store holds the sessions;
  the second entry \<open>user:<userId>:session\<close> lives under a key with another prefix and
  holds the session id, in the second component of \<open>stores\<close>.
\<close>

record AdAccount =
  ad_id :: string
  ad_name :: string
  ad_currency :: string
  ad_account_status :: string
  ad_business :: "(string \<times> string) option"

definition account_info :: "AdAccount \<Rightarrow> AccountInfo" where
  "account_info account =
     \<lparr>ai_id = ad_id account, ai_name = ad_name account, ai_currency = ad_currency account,
      ai_status = ad_account_status account, ai_business = ad_business account\<rparr>"

definition createUserSession ::
  "(string \<Rightarrow> AdAccount list outcome) \<Rightarrow> string \<Rightarrow> string \<Rightarrow> string \<Rightarrow> string \<Rightarrow> string
     \<Rightarrow> string \<Rightarrow> string option \<Rightarrow> int \<Rightarrow> int \<Rightarrow> int \<Rightarrow> int
     \<Rightarrow> UserSession memory \<times> string memory
     \<Rightarrow> (UserSession \<times> UserSession memory \<times> string memory) outcome" where
  "createUserSession getAdAccounts sessionId userId email name metaUserId accessToken
       refreshToken t_created t_used t_set t_set2 stores =
     (if accessToken \<noteq> [] \<and> length accessToken < 10 then
        Throws (Error ''Invalid Meta access token format.'')
      else
        (case getAdAccounts accessToken of
           Throws e \<Rightarrow> Throws e
         | Returns accounts \<Rightarrow>
             (let availableAccounts = map account_info accounts;
                  session = \<lparr>us_sessionId = sessionId, us_userId = userId, us_email = email,
                              us_name = name, us_metaUserId = metaUserId,
                              us_accessToken = accessToken, us_refreshToken = refreshToken,
                              us_tokenExpiration = None, us_selectedAccountId = None,
                              us_availableAccounts = availableAccounts,
                              us_createdAt = t_created, us_lastUsed = t_used\<rparr>
              in Returns
                   (session,
                    memory_set (session_key sessionId) session (Some session_ttl) t_set
                      (fst stores),
                    memory_set (''user:'' @ userId @ '':session'') sessionId (Some session_ttl)
                      t_set2 (snd stores)))))"

text \<open>
  \<open>getUserSession\<close>: \<open>t_get\<close> is the clock read of \<open>storage.get\<close>, \<open>t_used\<close> the
  \<open>new Date()\<close> written to \<open>lastUsed\<close>, \<open>t_set\<close> the clock read of \<open>storage.set\<close>.
\<close>

definition getUserSession ::
  "string \<Rightarrow> int \<Rightarrow> int \<Rightarrow> int \<Rightarrow> UserSession memory \<Rightarrow> UserSession option \<times> UserSession memory" where
  "getUserSession sessionId t_get t_used t_set storage =
     (case memory_get (session_key sessionId) t_get storage of
        (None, storage1) \<Rightarrow> (None, storage1)
      | (Some session, storage1) \<Rightarrow>
          (let session' = session\<lparr>us_lastUsed := t_used\<rparr>
           in (Some session',
               memory_set (session_key sessionId) session' (Some session_ttl) t_set storage1)))"

text \<open>An entry is expired at time \<open>now\<close> when \<open>get\<close> would drop it.\<close>

definition expired_at :: "int \<Rightarrow> 'v mem_item \<Rightarrow> bool" where
  "expired_at now item = (case item_expiry item of None \<Rightarrow> False | Some e \<Rightarrow> e \<noteq> 0 \<and> now > e)"

subsection \<open>Expiry of entries\<close>

lemma memory_get_fresh_set:
  "memory_get key t (memory_set key v None t0 m) = (Some v, memory_set key v None t0 m)"
  by (simp add: memory_get_def memory_set_def)

lemma memory_get_zero_ex:
  "memory_get key t (memory_set key v (Some 0) t0 m) = (Some v, memory_set key v (Some 0) t0 m)"
  by (simp add: memory_get_def memory_set_def)

lemma memory_get_before_expiry:
  "n \<noteq> 0 \<Longrightarrow> t \<le> t0 + n * 1000 \<Longrightarrow>
   memory_get key t (memory_set key v (Some n) t0 m) = (Some v, memory_set key v (Some n) t0 m)"
  by (simp add: memory_get_def memory_set_def)

lemma memory_get_after_expiry:
  "n \<noteq> 0 \<Longrightarrow> t0 + n * 1000 \<noteq> 0 \<Longrightarrow> t0 + n * 1000 < t \<Longrightarrow>
   memory_get key t (memory_set key v (Some n) t0 m)
     = (None, (memory_set key v (Some n) t0 m)(key := None))"
  by (simp add: memory_get_def memory_set_def)

text \<open>
  Claim C3, as the code has it. After \<open>set(key, value, {ex: n})\<close> at time \<open>t0\<close> with
  \<open>n > 0\<close> (and a clock that is not negative), a \<open>get(key)\<close> at a time \<open>t\<close> before
  \<open>n\<close> seconds have elapsed returns the value and leaves the map as it is, and a
  \<open>get(key)\<close> after \<open>n\<close> seconds have elapsed returns \<open>null\<close> and deletes the entry.
  A \<open>set\<close> without \<open>ex\<close>, and one with \<open>ex = 0\<close>, never expires: every later \<open>get\<close>
  returns the value.
\<close>

theorem memory_adapter_expiry:
  assumes "0 < n" and "0 \<le> t0"
  shows "(t - t0 < n * 1000 \<longrightarrow>
            memory_get key t (memory_set key v (Some n) t0 m)
              = (Some v, memory_set key v (Some n) t0 m))
       \<and> (t - t0 > n * 1000 \<longrightarrow>
            memory_get key t (memory_set key v (Some n) t0 m)
              = (None, (memory_set key v (Some n) t0 m)(key := None)))
       \<and> memory_get key t (memory_set key v None t0 m) = (Some v, memory_set key v None t0 m)
       \<and> memory_get key t (memory_set key v (Some 0) t0 m)
              = (Some v, memory_set key v (Some 0) t0 m)"
proof -
  from assms have nz: "n \<noteq> 0" and ez: "t0 + n * 1000 \<noteq> 0" by auto
  have before: "t - t0 < n * 1000 \<longrightarrow>
      memory_get key t (memory_set key v (Some n) t0 m) = (Some v, memory_set key v (Some n) t0 m)"
    using memory_get_before_expiry [OF nz, of t t0 key v m] by auto
  have after: "t - t0 > n * 1000 \<longrightarrow>
      memory_get key t (memory_set key v (Some n) t0 m)
        = (None, (memory_set key v (Some n) t0 m)(key := None))"
    using memory_get_after_expiry [OF nz ez, of t key v m] by auto
  show ?thesis
    using before after by (simp add: memory_get_fresh_set memory_get_zero_ex)
qed

theorem memory_adapter_expiry_witness:
  "(0::int) < 60 \<and> (0::int) \<le> 1000
   \<and> fst (memory_get ''k'' 2000 (memory_set ''k'' ''v'' (Some 60) 1000 Map.empty)) = Some ''v''
   \<and> fst (memory_get ''k'' 61001 (memory_set ''k'' ''v'' (Some 60) 1000 Map.empty)) = None
   \<and> snd (memory_get ''k'' 61001 (memory_set ''k'' ''v'' (Some 60) 1000 Map.empty)) ''k'' = None"
proof -
  have h1: "(0::int) < 60" and h2: "(0::int) \<le> 1000" by simp_all
  note th = memory_adapter_expiry [OF h1 h2, of _ "''k''" "''v''" Map.empty]
  have a: "fst (memory_get ''k'' 2000 (memory_set ''k'' ''v'' (Some 60) 1000 Map.empty)) = Some ''v''"
    using th [of 2000] by simp
  have b: "memory_get ''k'' 61001 (memory_set ''k'' ''v'' (Some 60) 1000 Map.empty)
             = (None, (memory_set ''k'' ''v'' (Some 60) 1000 Map.empty)(''k'' := None))"
    using th [of 61001] by simp
  show ?thesis using h1 h2 a b by simp
qed

text \<open>
  The claim as stated fails at \<open>n = 0\<close>: \<open>options?.ex\<close> is falsy there, no expiry is
  recorded, and a \<open>get\<close> four seconds later still returns the value.
\<close>

theorem memory_adapter_ex_zero_counterexample:
  "fst (memory_get ''k'' 5000 (memory_set ''k'' ''v'' (Some 0) 1000 Map.empty)) = Some ''v''
   \<and> snd (memory_get ''k'' 5000 (memory_set ''k'' ''v'' (Some 0) 1000 Map.empty)) ''k'' \<noteq> None"
  by (simp add: memory_get_def memory_set_def)

subsection \<open>Sliding expiry of sessions\<close>

lemma getUserSession_absent:
  "storage (session_key sid) = None \<Longrightarrow>
   getUserSession sid t_get t_used t_set storage = (None, storage)"
  by (simp add: getUserSession_def memory_get_def)

lemma getUserSession_expired:
  "storage (session_key sid) = Some item \<Longrightarrow> expired_at t_get item \<Longrightarrow>
   getUserSession sid t_get t_used t_set storage = (None, storage(session_key sid := None))"
  by (auto simp: getUserSession_def memory_get_def expired_at_def split: option.splits)

lemma getUserSession_live:
  "storage (session_key sid) = Some item \<Longrightarrow> \<not> expired_at t_get item \<Longrightarrow>
   getUserSession sid t_get t_used t_set storage
     = (Some ((item_value item)\<lparr>us_lastUsed := t_used\<rparr>),
        storage(session_key sid \<mapsto>
          \<lparr>item_value = (item_value item)\<lparr>us_lastUsed := t_used\<rparr>,
           item_expiry = Some (t_set + 7 * 24 * 60 * 60 * 1000)\<rparr>))"
  by (auto simp: getUserSession_def memory_get_def memory_set_def expired_at_def session_ttl_def
      Let_def split: option.splits)

text \<open>
  Claim C7, as the code has it. \<open>getUserSession\<close> returns \<open>null\<close> when no unexpired
  session is stored under the id: the store is left unchanged when nothing is stored under
  the key, and an expired entry is deleted by the lookup (every other key keeps its entry).
  When an unexpired session is stored, the call returns it with \<open>lastUsed\<close> set to the
  current date and every other field unchanged, and stores it again under the same key
  with an expiry seven days after the clock read of the store.
\<close>

theorem getUserSession_sliding_expiry:
  "(storage (session_key sid) = None \<longrightarrow>
      getUserSession sid t_get t_used t_set storage = (None, storage))
   \<and> (\<forall>item. storage (session_key sid) = Some item \<and> expired_at t_get item \<longrightarrow>
         getUserSession sid t_get t_used t_set storage
           = (None, storage(session_key sid := None)))
   \<and> (\<forall>item. storage (session_key sid) = Some item \<and> \<not> expired_at t_get item \<longrightarrow>
         (\<exists>session'.
            getUserSession sid t_get t_used t_set storage
              = (Some session',
                 storage(session_key sid \<mapsto>
                   \<lparr>item_value = session',
                    item_expiry = Some (t_set + 7 * 24 * 60 * 60 * 1000)\<rparr>))
            \<and> us_lastUsed session' = t_used
            \<and> session'\<lparr>us_lastUsed := us_lastUsed (item_value item)\<rparr> = item_value item))"
proof (intro conjI allI impI)
  assume "storage (session_key sid) = None"
  then show "getUserSession sid t_get t_used t_set storage = (None, storage)"
    by (rule getUserSession_absent)
next
  fix item
  assume "storage (session_key sid) = Some item \<and> expired_at t_get item"
  then show "getUserSession sid t_get t_used t_set storage
               = (None, storage(session_key sid := None))"
    using getUserSession_expired by blast
next
  fix item
  assume a: "storage (session_key sid) = Some item \<and> \<not> expired_at t_get item"
  let ?s = "(item_value item)\<lparr>us_lastUsed := t_used\<rparr>"
  have "getUserSession sid t_get t_used t_set storage
          = (Some ?s, storage(session_key sid \<mapsto>
               \<lparr>item_value = ?s, item_expiry = Some (t_set + 7 * 24 * 60 * 60 * 1000)\<rparr>))"
    using a getUserSession_live by blast
  moreover have "us_lastUsed ?s = t_used" by simp
  moreover have "?s\<lparr>us_lastUsed := us_lastUsed (item_value item)\<rparr> = item_value item" by simp
  ultimately show "\<exists>session'.
            getUserSession sid t_get t_used t_set storage
              = (Some session',
                 storage(session_key sid \<mapsto>
                   \<lparr>item_value = session',
                    item_expiry = Some (t_set + 7 * 24 * 60 * 60 * 1000)\<rparr>))
            \<and> us_lastUsed session' = t_used
            \<and> session'\<lparr>us_lastUsed := us_lastUsed (item_value item)\<rparr> = item_value item"
    by blast
qed

text \<open>
  A session and the store that \<open>createUserSession\<close> builds for it, for the concrete runs
  below.
\<close>

definition sample_session :: UserSession where
  "sample_session =
     \<lparr>us_sessionId = ''s1'', us_userId = ''u1'', us_email = ''u1@example.org'',
      us_name = ''User'', us_metaUserId = ''m1'', us_accessToken = ''EAAtoken0001'',
      us_refreshToken = None, us_tokenExpiration = None, us_selectedAccountId = None,
      us_availableAccounts =
        [\<lparr>ai_id = ''act_1'', ai_name = ''Shop'', ai_currency = ''EUR'', ai_status = ''1'',
          ai_business = None\<rparr>],
      us_createdAt = 1000, us_lastUsed = 1000\<rparr>"

definition sample_store :: "UserSession memory" where
  "sample_store =
     memory_set (session_key ''s1'') sample_session (Some session_ttl) 1001 Map.empty"

lemma createUserSession_sample:
  "createUserSession
     (\<lambda>token. Returns [\<lparr>ad_id = ''act_1'', ad_name = ''Shop'', ad_currency = ''EUR'',
                          ad_account_status = ''1'', ad_business = None\<rparr>])
     ''s1'' ''u1'' ''u1@example.org'' ''User'' ''m1'' ''EAAtoken0001'' None
     1000 1000 1001 1002 (Map.empty, Map.empty)
   = Returns (sample_session, sample_store,
              memory_set ''user:u1:session'' ''s1'' (Some session_ttl) 1002 Map.empty)"
  by (simp add: createUserSession_def account_info_def sample_session_def sample_store_def
      Let_def)

lemma sample_store_entry:
  "sample_store (session_key ''s1'')
     = Some \<lparr>item_value = sample_session, item_expiry = Some 604801001\<rparr>"
  by (simp add: sample_store_def memory_set_def session_ttl_def)

theorem getUserSession_sliding_expiry_witness:
  "sample_store (session_key ''s2'') = None
   \<and> getUserSession ''s2'' 5000 5001 5002 sample_store = (None, sample_store)
   \<and> expired_at 604801002 \<lparr>item_value = sample_session, item_expiry = Some 604801001\<rparr>
   \<and> getUserSession ''s1'' 604801002 604801003 604801004 sample_store
        = (None, sample_store(session_key ''s1'' := None))
   \<and> \<not> expired_at 5000 \<lparr>item_value = sample_session, item_expiry = Some 604801001\<rparr>
   \<and> fst (getUserSession ''s1'' 5000 5001 5002 sample_store)
        = Some (sample_session\<lparr>us_lastUsed := 5001\<rparr>)
   \<and> snd (getUserSession ''s1'' 5000 5001 5002 sample_store) (session_key ''s1'')
        = Some \<lparr>item_value = sample_session\<lparr>us_lastUsed := 5001\<rparr>,
                item_expiry = Some 604805002\<rparr>"
proof -
  note th = getUserSession_sliding_expiry [where storage = sample_store]
  have e0: "sample_store (session_key ''s2'') = None"
    by (simp add: sample_store_def memory_set_def session_key_def)
  have a: "getUserSession ''s2'' 5000 5001 5002 sample_store = (None, sample_store)"
    using th [of "''s2''" 5000 5001 5002] e0 by blast
  have e1: "expired_at 604801002 \<lparr>item_value = sample_session, item_expiry = Some 604801001\<rparr>"
    by (simp add: expired_at_def)
  have b: "getUserSession ''s1'' 604801002 604801003 604801004 sample_store
             = (None, sample_store(session_key ''s1'' := None))"
    using th [of "''s1''" 604801002 604801003 604801004] sample_store_entry e1 by blast
  have e2: "\<not> expired_at 5000 \<lparr>item_value = sample_session, item_expiry = Some 604801001\<rparr>"
    by (simp add: expired_at_def)
  obtain s' where c: "getUserSession ''s1'' 5000 5001 5002 sample_store
        = (Some s', sample_store(session_key ''s1'' \<mapsto>
             \<lparr>item_value = s', item_expiry = Some (5002 + 7 * 24 * 60 * 60 * 1000)\<rparr>))"
      and d: "us_lastUsed s' = 5001"
      and e: "s'\<lparr>us_lastUsed := us_lastUsed sample_session\<rparr> = sample_session"
    using th [of "''s1''" 5000 5001 5002] sample_store_entry e2 by auto
  have "s'\<lparr>us_lastUsed := us_lastUsed sample_session, us_lastUsed := 5001\<rparr>
          = sample_session\<lparr>us_lastUsed := 5001\<rparr>"
    using e by simp
  then have g: "s'\<lparr>us_lastUsed := 5001\<rparr> = sample_session\<lparr>us_lastUsed := 5001\<rparr>"
    by simp
  have "s'\<lparr>us_lastUsed := 5001\<rparr> = s'"
    using d by (cases s') simp
  then have f: "s' = sample_session\<lparr>us_lastUsed := 5001\<rparr>"
    using g by simp
  show ?thesis using e0 a e1 b e2 c f by simp
qed

text \<open>
  The claim as stated fails where it says that the store is left unchanged: with an expired
  session under the key, the call returns \<open>null\<close> and the entry is gone afterwards.
\<close>

theorem getUserSession_expired_counterexample:
  "fst (getUserSession ''s1'' 604801002 604801003 604801004 sample_store) = None
   \<and> sample_store (session_key ''s1'') \<noteq> None
   \<and> snd (getUserSession ''s1'' 604801002 604801003 604801004 sample_store) (session_key ''s1'')
       = None"
  by (simp add: getUserSession_def memory_get_def sample_store_entry)

section \<open>The tool factory (ToolFactory, createToolResponse)\<close>

text \<open>
  A \<open>ToolResponse\<close> is \<open>{ success, data?, error?, message? }\<close>; an absent \<open>data\<close> is
  \<open>JUndefined\<close>. The MCP response envelope is \<open>{ content: [{ type: "text", text }],
  isError? }\<close>. \<open>JSON.stringify(response, null, 2)\<close> is the platform's serialiser and is
  an argument \<open>stringify\<close> of the functions that call it.
\<close>

record ToolResponse =
  tr_success :: bool
  tr_data :: jsval
  tr_error :: "string option"
  tr_message :: "string option"

datatype content_item = TextContent string

record mcp_response =
  content :: "content_item list"
  isError :: "bool option"

text \<open>\<open>...(message && { message })\<close>: the key is there when the message is truthy.\<close>

definition spread_message :: "string option \<Rightarrow> (string \<times> jsval) list" where
  "spread_message m =
     (case m of None \<Rightarrow> [] | Some t \<Rightarrow> if t \<noteq> [] then [(''message'', JStr t)] else [])"

definition formatSuccessResponse :: "(jsval \<Rightarrow> string) \<Rightarrow> ToolResponse \<Rightarrow> mcp_response" where
  "formatSuccessResponse stringify result =
     (let response = JObj ([(''success'', JBool True), (''data'', tr_data result)]
                           @ spread_message (tr_message result))
      in \<lparr>content = [TextContent (stringify response)], isError = None\<rparr>)"

definition formatErrorResponse :: "(jsval \<Rightarrow> string) \<Rightarrow> string \<Rightarrow> mcp_response" where
  "formatErrorResponse stringify error =
     (let response = JObj [(''success'', JBool False), (''error'', JStr error)]
      in \<lparr>content = [TextContent (stringify response)], isError = Some True\<rparr>)"

text \<open>\<open>error instanceof Error ? error.message : 'Unknown error occurred'\<close>\<close>

definition error_message :: "thrown \<Rightarrow> string" where
  "error_message e =
     (case e of Error m \<Rightarrow> m | HttpError st m \<Rightarrow> m | NonError \<Rightarrow> ''Unknown error occurred'')"

text \<open>
  The callback that \<open>registerTool\<close> hands to \<open>server.tool\<close>. A handler is a function
  of its arguments and of a state \<open>'s\<close> (what its API calls change); awaiting it returns a
  \<open>ToolResponse\<close> or throws. The \<open>try\<close> block is the first case, \<open>catch\<close> the second.
\<close>

definition tool_callback ::
  "(jsval \<Rightarrow> string) \<Rightarrow> ('a \<Rightarrow> 's \<Rightarrow> ToolResponse outcome \<times> 's)
     \<Rightarrow> 'a \<Rightarrow> 's \<Rightarrow> mcp_response outcome \<times> 's" where
  "tool_callback stringify handler args s =
     (case handler args s of
        (Returns result, s') \<Rightarrow>
          if tr_success result then (Returns (formatSuccessResponse stringify result), s')
          else (Returns (formatErrorResponse stringify
                  (case tr_error result of
                     None \<Rightarrow> ''Unknown error occurred''
                   | Some e \<Rightarrow> if e \<noteq> [] then e else ''Unknown error occurred'')), s')
      | (Throws err, s') \<Rightarrow> (Returns (formatErrorResponse stringify (error_message err)), s'))"

text \<open>
  The server's tool registry: \<open>server.tool(name, description, schema.shape, callback)\<close>
  stores the callback under the tool's name, with its description and schema.
\<close>

record ('a, 's) registered_tool =
  tool_description :: string
  tool_schema :: "'a \<Rightarrow> bool"
  tool_run :: "'a \<Rightarrow> 's \<Rightarrow> mcp_response outcome \<times> 's"

type_synonym ('a, 's) mcp_server = "string \<Rightarrow> ('a, 's) registered_tool option"

definition registerTool ::
  "(jsval \<Rightarrow> string) \<Rightarrow> string \<Rightarrow> string \<Rightarrow> ('a \<Rightarrow> bool)
     \<Rightarrow> ('a \<Rightarrow> 's \<Rightarrow> ToolResponse outcome \<times> 's) \<Rightarrow> ('a, 's) mcp_server \<Rightarrow> ('a, 's) mcp_server" where
  "registerTool stringify name description schema handler server =
     server(name \<mapsto> \<lparr>tool_description = description, tool_schema = schema,
                       tool_run = tool_callback stringify handler\<rparr>)"

definition createToolResponse_success :: "jsval \<Rightarrow> string option \<Rightarrow> ToolResponse" where
  "createToolResponse_success d message =
     \<lparr>tr_success = True, tr_data = d, tr_error = None,
      tr_message = (if truthy_str message then message else None)\<rparr>"


text \<open>The two shapes of the JSON object in the envelope's text.\<close>

definition success_json :: "jsval \<Rightarrow> bool" where
  "success_json j =
     (case j of
        JObj (s # d # ms) \<Rightarrow>
          s = (''success'', JBool True) \<and> fst d = ''data''
          \<and> (case ms of
                [] \<Rightarrow> True
              | [(k, JStr m)] \<Rightarrow> k = ''message''
              | _ \<Rightarrow> False)
      | _ \<Rightarrow> False)"

definition error_json :: "jsval \<Rightarrow> bool" where
  "error_json j =
     (case j of
        JObj [s, (k, JStr e)] \<Rightarrow> s = (''success'', JBool False) \<and> k = ''error''
      | _ \<Rightarrow> False)"

lemma formatSuccessResponse_shape:
  "\<exists>j. success_json j
     \<and> formatSuccessResponse stringify result
         = \<lparr>content = [TextContent (stringify j)], isError = None\<rparr>"
proof -
  let ?j = "JObj ([(''success'', JBool True), (''data'', tr_data result)]
                  @ spread_message (tr_message result))"
  have "success_json ?j"
    by (simp add: success_json_def spread_message_def split: option.splits)
  moreover have "formatSuccessResponse stringify result
                   = \<lparr>content = [TextContent (stringify ?j)], isError = None\<rparr>"
    by (simp add: formatSuccessResponse_def)
  ultimately show ?thesis by blast
qed

lemma formatErrorResponse_shape:
  "\<exists>j. error_json j
     \<and> formatErrorResponse stringify e
         = \<lparr>content = [TextContent (stringify j)], isError = Some True\<rparr>"
proof -
  let ?j = "JObj [(''success'', JBool False), (''error'', JStr e)]"
  have "error_json ?j" by (simp add: error_json_def)
  moreover have "formatErrorResponse stringify e
                   = \<lparr>content = [TextContent (stringify ?j)], isError = Some True\<rparr>"
    by (simp add: formatErrorResponse_def)
  ultimately show ?thesis by blast
qed

lemma tool_callback_throws:
  "handler args s = (Throws err, s') \<Longrightarrow>
   tool_callback stringify handler args s
     = (Returns (formatErrorResponse stringify (error_message err)), s')"
  by (simp add: tool_callback_def)

lemma tool_callback_success:
  "handler args s = (Returns result, s') \<Longrightarrow> tr_success result \<Longrightarrow>
   tool_callback stringify handler args s
     = (Returns (formatSuccessResponse stringify result), s')"
  by (simp add: tool_callback_def)

lemma tool_callback_failure:
  "handler args s = (Returns result, s') \<Longrightarrow> \<not> tr_success result \<Longrightarrow>
   tool_callback stringify handler args s
     = (Returns (formatErrorResponse stringify
          (case tr_error result of
             None \<Rightarrow> ''Unknown error occurred''
           | Some e \<Rightarrow> if e \<noteq> [] then e else ''Unknown error occurred'')), s')"
  by (simp add: tool_callback_def)

lemma tool_callback_cases:
  "(\<exists>result. tool_callback stringify handler args s
        = (Returns (formatSuccessResponse stringify result), snd (handler args s)))
   \<or> (\<exists>e. tool_callback stringify handler args s
        = (Returns (formatErrorResponse stringify e), snd (handler args s)))"
proof (cases "handler args s")
  case (Pair r s')
  show ?thesis
  proof (cases r)
    case (Returns result)
    show ?thesis
    proof (cases "tr_success result")
      case True
      then have "tool_callback stringify handler args s
                   = (Returns (formatSuccessResponse stringify result), snd (handler args s))"
        using Pair Returns tool_callback_success [of handler args s result s' stringify] by simp
      then show ?thesis by blast
    next
      case False
      then have "tool_callback stringify handler args s
                   = (Returns (formatErrorResponse stringify
                        (case tr_error result of
                           None \<Rightarrow> ''Unknown error occurred''
                         | Some e \<Rightarrow> if e \<noteq> [] then e else ''Unknown error occurred'')),
                      snd (handler args s))"
        using Pair Returns tool_callback_failure [of handler args s result s' stringify] by simp
      then show ?thesis by blast
    qed
  next
    case (Throws err)
    then have "tool_callback stringify handler args s
                 = (Returns (formatErrorResponse stringify (error_message err)),
                    snd (handler args s))"
      using Pair tool_callback_throws [of handler args s err s' stringify] by simp
    then show ?thesis by blast
  qed
qed

text \<open>
  Claim C5. A tool registered through \<open>registerTool\<close> answers every invocation with a
  response envelope, never with an exception: the envelope holds a single text item whose
  text is the JSON of \<open>{success: true, data, message?}\<close> when the handler reports success,
  and of \<open>{success: false, error}\<close> together with \<open>isError: true\<close> when the handler
  reports a failure or throws; a thrown \<open>Error\<close> gives its message as the error text.
\<close>

theorem registerTool_response_envelope:
  "registerTool stringify name description schema handler server name
     = Some \<lparr>tool_description = description, tool_schema = schema,
             tool_run = tool_callback stringify handler\<rparr>
   \<and> (\<exists>env. tool_callback stringify handler args s = (Returns env, snd (handler args s))
          \<and> ((\<exists>j. success_json j
                 \<and> env = \<lparr>content = [TextContent (stringify j)], isError = None\<rparr>)
             \<or> (\<exists>j. error_json j
                 \<and> env = \<lparr>content = [TextContent (stringify j)], isError = Some True\<rparr>)))
   \<and> (\<forall>result s'. handler args s = (Returns result, s') \<and> tr_success result \<longrightarrow>
         tool_callback stringify handler args s
           = (Returns (formatSuccessResponse stringify result), s'))
   \<and> (\<forall>result s'. handler args s = (Returns result, s') \<and> \<not> tr_success result \<longrightarrow>
         (\<exists>e. tool_callback stringify handler args s
                = (Returns (formatErrorResponse stringify e), s')))
   \<and> (\<forall>err s'. handler args s = (Throws err, s') \<longrightarrow>
         tool_callback stringify handler args s
           = (Returns (formatErrorResponse stringify (error_message err)), s'))"
proof -
  have reg: "registerTool stringify name description schema handler server name
     = Some \<lparr>tool_description = description, tool_schema = schema,
             tool_run = tool_callback stringify handler\<rparr>"
    by (simp add: registerTool_def)
  have env: "\<exists>env. tool_callback stringify handler args s = (Returns env, snd (handler args s))
          \<and> ((\<exists>j. success_json j
                 \<and> env = \<lparr>content = [TextContent (stringify j)], isError = None\<rparr>)
             \<or> (\<exists>j. error_json j
                 \<and> env = \<lparr>content = [TextContent (stringify j)], isError = Some True\<rparr>))"
    using tool_callback_cases [of stringify handler args s]
  proof
    assume "\<exists>result. tool_callback stringify handler args s
              = (Returns (formatSuccessResponse stringify result), snd (handler args s))"
    then obtain result where
      "tool_callback stringify handler args s
         = (Returns (formatSuccessResponse stringify result), snd (handler args s))" ..
    then show ?thesis using formatSuccessResponse_shape [of stringify result] by blast
  next
    assume "\<exists>e. tool_callback stringify handler args s
              = (Returns (formatErrorResponse stringify e), snd (handler args s))"
    then obtain e where
      "tool_callback stringify handler args s
         = (Returns (formatErrorResponse stringify e), snd (handler args s))" ..
    then show ?thesis using formatErrorResponse_shape [of stringify e] by blast
  qed
  have ok: "\<forall>result s'. handler args s = (Returns result, s') \<and> tr_success result \<longrightarrow>
         tool_callback stringify handler args s
           = (Returns (formatSuccessResponse stringify result), s')"
    by (simp add: tool_callback_def)
  have ko: "\<forall>result s'. handler args s = (Returns result, s') \<and> \<not> tr_success result \<longrightarrow>
         (\<exists>e. tool_callback stringify handler args s
                = (Returns (formatErrorResponse stringify e), s'))"
    by (auto simp: tool_callback_def)
  have thr: "\<forall>err s'. handler args s = (Throws err, s') \<longrightarrow>
         tool_callback stringify handler args s
           = (Returns (formatErrorResponse stringify (error_message err)), s')"
    by (simp add: tool_callback_def)
  from reg env ok ko thr show ?thesis by (intro conjI)
qed

theorem registerTool_response_envelope_witness:
  "tool_callback (\<lambda>j. ''{}'') (\<lambda>(a::unit) (s::nat). (Throws (Error ''boom''), Suc s)) () 0
     = (Returns (formatErrorResponse (\<lambda>j. ''{}'') ''boom''), 1)
   \<and> tool_callback (\<lambda>j. ''{}'')
        (\<lambda>(a::unit) (s::nat). (Returns (createToolResponse_success (JNum 7) (Some ''done'')), s)) () 0
     = (Returns (formatSuccessResponse (\<lambda>j. ''{}'')
          (createToolResponse_success (JNum 7) (Some ''done''))), 0)
   \<and> isError (formatErrorResponse (\<lambda>j. ''{}'') ''boom'') = Some True"
proof -
  let ?str = "\<lambda>j::jsval. ''{}''"
  let ?h1 = "\<lambda>(a::unit) (s::nat). (Throws (Error ''boom'') :: ToolResponse outcome, Suc s)"
  let ?h2 = "\<lambda>(a::unit) (s::nat).
               (Returns (createToolResponse_success (JNum 7) (Some ''done'')), s)"
  have a: "tool_callback ?str ?h1 () 0 = (Returns (formatErrorResponse ?str ''boom''), 1)"
    using registerTool_response_envelope
      [of ?str "''t''" "''d''" "\<lambda>a. True" ?h1 Map.empty "()" 0]
    by (simp add: error_message_def)
  have b: "tool_callback ?str ?h2 () 0
             = (Returns (formatSuccessResponse ?str
                  (createToolResponse_success (JNum 7) (Some ''done''))), 0)"
    using registerTool_response_envelope
      [of ?str "''t''" "''d''" "\<lambda>a. True" ?h2 Map.empty "()" 0]
    by (simp add: createToolResponse_success_def)
  have c: "isError (formatErrorResponse ?str ''boom'') = Some True"
    by (simp add: formatErrorResponse_def)
  show ?thesis using a b c by simp
qed

section \<open>The create_campaign tool (registerCampaignToolsRefactored)\<close>





















section \<open>Access tokens from request headers (MetaContext)\<close>

text \<open>
  Header values are strings of 8-bit characters. The regular expression of
  \<open>extractAccessToken\<close> is \<open>/^Bearer\s+(.+)$/i\<close>: \<open>\s\<close> matches the white space
  characters (tab, line feed, vertical tab, form feed, carriage return, space and the
  no-break space in this range), and \<open>.\<close> matches every character but a line terminator
  (line feed and carriage return in this range).
\<close>

definition is_whitespace :: "char \<Rightarrow> bool" where
  "is_whitespace c =
     (c \<in> set [CHR 0x09, CHR 0x0A, CHR 0x0B, CHR 0x0C, CHR 0x0D, CHR 0x20, CHR 0xA0])"

definition is_line_terminator :: "char \<Rightarrow> bool" where
  "is_line_terminator c = (c = CHR 0x0A \<or> c = CHR 0x0D)"

text \<open>\<open>^Bearer\<close> under the \<open>i\<close> flag: the first six characters, in either case.\<close>

definition bearer_prefix :: "string \<Rightarrow> bool" where
  "bearer_prefix h =
     (6 \<le> length h
      \<and> (h ! 0 = CHR ''B'' \<or> h ! 0 = CHR ''b'')
      \<and> (h ! 1 = CHR ''E'' \<or> h ! 1 = CHR ''e'')
      \<and> (h ! 2 = CHR ''A'' \<or> h ! 2 = CHR ''a'')
      \<and> (h ! 3 = CHR ''R'' \<or> h ! 3 = CHR ''r'')
      \<and> (h ! 4 = CHR ''E'' \<or> h ! 4 = CHR ''e'')
      \<and> (h ! 5 = CHR ''R'' \<or> h ! 5 = CHR ''r''))"

text \<open>\<open>(.+)$\<close>: the rest of the input, not empty and free of line terminators.\<close>

definition dot_plus_to_end :: "string \<Rightarrow> bool" where
  "dot_plus_to_end r = (r \<noteq> [] \<and> list_all (\<lambda>c. \<not> is_line_terminator c) r)"

text \<open>
  \<open>\s+\<close> is greedy: it first takes the whole run of white space and gives characters
  back one at a time, down to one, until \<open>(.+)$\<close> matches what follows. The first
  argument is the number of white space characters it currently holds.
\<close>

fun backtrack_ws :: "nat \<Rightarrow> string \<Rightarrow> string option" where
  "backtrack_ws 0 rest = None"
| "backtrack_ws (Suc k) rest =
     (if dot_plus_to_end (drop (Suc k) rest) then Some (drop (Suc k) rest)
      else backtrack_ws k rest)"

text \<open>\<open>authHeader.match(/^Bearer\s+(.+)$/i)\<close>: the captured group, if the header matches.\<close>

definition bearerMatch :: "string \<Rightarrow> string option" where
  "bearerMatch h =
     (if bearer_prefix h
      then backtrack_ws (length (takeWhile is_whitespace (drop 6 h))) (drop 6 h)
      else None)"

definition extractAccessToken :: "(string \<Rightarrow> string option) \<Rightarrow> string option" where
  "extractAccessToken headers =
     (let authHeader = or_else (headers ''authorization'') (headers ''Authorization'');
          accessTokenHeader = or_else (headers ''x-access-token'') (headers ''X-Access-Token'');
          fromAccessTokenHeader = (if truthy_str accessTokenHeader then accessTokenHeader else None)
      in case authHeader of
           None \<Rightarrow> fromAccessTokenHeader
         | Some v \<Rightarrow>
             if v \<noteq> [] then
               (case bearerMatch v of Some token \<Rightarrow> Some token | None \<Rightarrow> Some v)
             else fromAccessTokenHeader)"

text \<open>
  \<open>withClient\<close>: the client is built from the access token alone; the callback is a
  function of the client and of a state that its calls change.
\<close>

record MetaApiClientImpl =
  client_accessToken :: string

definition withClient ::
  "(string \<Rightarrow> string option) \<Rightarrow> (MetaApiClientImpl \<Rightarrow> 's \<Rightarrow> 'a outcome \<times> 's) \<Rightarrow> 's
     \<Rightarrow> 'a outcome \<times> 's" where
  "withClient headers callback s =
     (case extractAccessToken headers of
        None \<Rightarrow> (Throws (Error ''No access token provided in headers''), s)
      | Some accessToken \<Rightarrow>
          if accessToken = [] then (Throws (Error ''No access token provided in headers''), s)
          else callback \<lparr>client_accessToken = accessToken\<rparr> s)"

lemma backtrack_ws_suffix:
  "backtrack_ws k rest = Some tok \<Longrightarrow> tok \<noteq> [] \<and> (\<exists>j. 0 < j \<and> j \<le> k \<and> tok = drop j rest)"
proof (induction k)
  case 0
  then show ?case by simp
next
  case (Suc k)
  show ?case
  proof (cases "dot_plus_to_end (drop (Suc k) rest)")
    case True
    with Suc.prems have "tok = drop (Suc k) rest" by simp
    moreover from True have "drop (Suc k) rest \<noteq> []" by (simp add: dot_plus_to_end_def)
    ultimately show ?thesis by (intro conjI exI [of _ "Suc k"]) simp_all
  next
    case False
    with Suc.prems have "backtrack_ws k rest = Some tok" by simp
    from Suc.IH [OF this] obtain j where "tok \<noteq> []" "0 < j" "j \<le> k" "tok = drop j rest"
      by blast
    then show ?thesis by (intro conjI exI [of _ j]) simp_all
  qed
qed

lemma bearerMatch_nonempty: "bearerMatch v = Some tok \<Longrightarrow> tok \<noteq> []"
  by (auto simp: bearerMatch_def dest: backtrack_ws_suffix split: if_splits)

lemma bearer_prefix_append:
  assumes "length p = 6" and "bearer_prefix p"
  shows "bearer_prefix (p @ r)"
proof -
  have "\<And>i. i < 6 \<Longrightarrow> (p @ r) ! i = p ! i"
    using assms(1) by (simp add: nth_append)
  then show ?thesis using assms by (simp add: bearer_prefix_def)
qed

lemma takeWhile_ws_run:
  assumes "list_all is_whitespace ws" and "tok \<noteq> []" and "\<not> is_whitespace (hd tok)"
  shows "takeWhile is_whitespace (ws @ tok) = ws"
proof -
  from assms(2) obtain c cs where tok: "tok = c # cs" by (cases tok) auto
  with assms(3) have "\<not> is_whitespace c" by simp
  with assms(1) tok show ?thesis by (simp add: list_all_iff takeWhile_append2)
qed

lemma bearerMatch_token:
  assumes "length p = 6" and "bearer_prefix p"
    and "ws \<noteq> []" and "list_all is_whitespace ws"
    and "tok \<noteq> []" and "\<not> is_whitespace (hd tok)"
    and "list_all (\<lambda>c. \<not> is_line_terminator c) tok"
  shows "bearerMatch (p @ ws @ tok) = Some tok"
proof -
  have pre: "bearer_prefix (p @ ws @ tok)"
    using bearer_prefix_append [OF assms(1,2)] by simp
  have rest: "drop 6 (p @ ws @ tok) = ws @ tok" using assms(1) by simp
  have run: "takeWhile is_whitespace (ws @ tok) = ws"
    using takeWhile_ws_run [OF assms(4,5,6)] .
  from assms(3) obtain k where k: "length ws = Suc k" by (cases ws) auto
  have "drop (Suc k) (ws @ tok) = tok" using k by simp
  moreover have "dot_plus_to_end tok" using assms(5,7) by (simp add: dot_plus_to_end_def)
  ultimately have "backtrack_ws (Suc k) (ws @ tok) = Some tok" by simp
  then show ?thesis using pre rest run k by (simp add: bearerMatch_def)
qed

lemma extractAccessToken_none:
  assumes "headers ''authorization'' = None" and "headers ''Authorization'' = None"
    and "headers ''x-access-token'' = None" and "headers ''X-Access-Token'' = None"
  shows "extractAccessToken headers = None"
  using assms by (simp add: extractAccessToken_def or_else_def truthy_str_def)

lemma extractAccessToken_auth:
  assumes "or_else (headers ''authorization'') (headers ''Authorization'') = Some v"
    and "v \<noteq> []"
  shows "extractAccessToken headers = Some (case bearerMatch v of Some token \<Rightarrow> token | None \<Rightarrow> v)"
  using assms by (simp add: extractAccessToken_def Let_def split: option.splits)

lemma withClient_auth:
  assumes "or_else (headers ''authorization'') (headers ''Authorization'') = Some v"
    and "v \<noteq> []"
  shows "withClient headers callback s
           = callback \<lparr>client_accessToken = (case bearerMatch v of Some token \<Rightarrow> token | None \<Rightarrow> v)\<rparr> s"
proof (cases "bearerMatch v")
  case None
  with assms extractAccessToken_auth [OF assms] show ?thesis by (simp add: withClient_def)
next
  case (Some tok)
  then have "tok \<noteq> []" by (rule bearerMatch_nonempty)
  with Some extractAccessToken_auth [OF assms] show ?thesis by (simp add: withClient_def)
qed

text \<open>
  Claim C9. When none of the headers \<open>authorization\<close>, \<open>Authorization\<close>,
  \<open>x-access-token\<close> and \<open>X-Access-Token\<close> is present, \<open>withClient\<close> throws the error
  \<open>No access token provided in headers\<close> and its callback is not invoked (the result and
  the state are the same for every callback). When an authorization header is present
  that reads \<open>Bearer\<close> (in any letter case), some white space and a token, the client is
  given exactly the token; in general the client is given the group captured by the regular
  expression when the header matches it, and the raw header value when it does not.
\<close>

theorem withClient_access_token:
  "(headers ''authorization'' = None \<and> headers ''Authorization'' = None
      \<and> headers ''x-access-token'' = None \<and> headers ''X-Access-Token'' = None \<longrightarrow>
      withClient headers callback s = (Throws (Error ''No access token provided in headers''), s))
   \<and> (\<forall>v. or_else (headers ''authorization'') (headers ''Authorization'') = Some v \<and> v \<noteq> [] \<longrightarrow>
        (\<forall>p ws tok. v = p @ ws @ tok \<and> length p = 6 \<and> bearer_prefix p
            \<and> ws \<noteq> [] \<and> list_all is_whitespace ws
            \<and> tok \<noteq> [] \<and> \<not> is_whitespace (hd tok)
            \<and> list_all (\<lambda>c. \<not> is_line_terminator c) tok \<longrightarrow>
            withClient headers callback s = callback \<lparr>client_accessToken = tok\<rparr> s)
        \<and> (\<forall>tok. bearerMatch v = Some tok \<longrightarrow>
              withClient headers callback s = callback \<lparr>client_accessToken = tok\<rparr> s)
        \<and> (bearerMatch v = None \<longrightarrow>
              withClient headers callback s = callback \<lparr>client_accessToken = v\<rparr> s))"
proof (intro conjI allI impI)
  assume "headers ''authorization'' = None \<and> headers ''Authorization'' = None
      \<and> headers ''x-access-token'' = None \<and> headers ''X-Access-Token'' = None"
  then have "extractAccessToken headers = None" using extractAccessToken_none by blast
  then show "withClient headers callback s
               = (Throws (Error ''No access token provided in headers''), s)"
    by (simp add: withClient_def)
next
  fix v p ws tok
  assume h: "or_else (headers ''authorization'') (headers ''Authorization'') = Some v \<and> v \<noteq> []"
    and f: "v = p @ ws @ tok \<and> length p = 6 \<and> bearer_prefix p
            \<and> ws \<noteq> [] \<and> list_all is_whitespace ws
            \<and> tok \<noteq> [] \<and> \<not> is_whitespace (hd tok)
            \<and> list_all (\<lambda>c. \<not> is_line_terminator c) tok"
  from f have "bearerMatch v = Some tok" using bearerMatch_token by blast
  with h withClient_auth [of headers v callback s]
  show "withClient headers callback s = callback \<lparr>client_accessToken = tok\<rparr> s" by simp
next
  fix v tok
  assume h: "or_else (headers ''authorization'') (headers ''Authorization'') = Some v \<and> v \<noteq> []"
    and m: "bearerMatch v = Some tok"
  with withClient_auth [of headers v callback s]
  show "withClient headers callback s = callback \<lparr>client_accessToken = tok\<rparr> s" by simp
next
  fix v
  assume h: "or_else (headers ''authorization'') (headers ''Authorization'') = Some v \<and> v \<noteq> []"
    and m: "bearerMatch v = None"
  with withClient_auth [of headers v callback s]
  show "withClient headers callback s = callback \<lparr>client_accessToken = v\<rparr> s" by simp
qed

theorem withClient_access_token_witness:
  "withClient Map.empty (\<lambda>c (s::nat). (Returns (client_accessToken c), Suc s)) 0
     = (Throws (Error ''No access token provided in headers''), 0)
   \<and> withClient [''Authorization'' \<mapsto> ''bEARER  EAAtoken'']
        (\<lambda>c (s::nat). (Returns (client_accessToken c), Suc s)) 0
     = (Returns ''EAAtoken'', 1)
   \<and> bearerMatch ''EAAtoken'' = None
   \<and> withClient [''authorization'' \<mapsto> ''EAAtoken'']
        (\<lambda>c (s::nat). (Returns (client_accessToken c), Suc s)) 0
     = (Returns ''EAAtoken'', 1)"
proof -
  let ?cb = "\<lambda>c (s::nat). (Returns (client_accessToken c), Suc s)"
  let ?h2 = "[''Authorization'' \<mapsto> ''bEARER  EAAtoken'']"
  let ?h3 = "[''authorization'' \<mapsto> ''EAAtoken'']"
  have a: "withClient Map.empty ?cb 0
             = (Throws (Error ''No access token provided in headers''), 0)"
    using withClient_access_token [of Map.empty ?cb 0] by simp
  have o2: "or_else (?h2 ''authorization'') (?h2 ''Authorization'') = Some ''bEARER  EAAtoken''"
    by (simp add: or_else_def truthy_str_def)
  have f2: "''bEARER  EAAtoken'' = ''bEARER'' @ ''  '' @ ''EAAtoken'' \<and> length ''bEARER'' = 6
      \<and> bearer_prefix ''bEARER'' \<and> ''  '' \<noteq> [] \<and> list_all is_whitespace ''  ''
      \<and> ''EAAtoken'' \<noteq> [] \<and> \<not> is_whitespace (hd ''EAAtoken'')
      \<and> list_all (\<lambda>c. \<not> is_line_terminator c) ''EAAtoken''"
    by (simp add: bearer_prefix_def is_whitespace_def is_line_terminator_def)
  have b: "withClient ?h2 ?cb 0 = ?cb \<lparr>client_accessToken = ''EAAtoken''\<rparr> 0"
    using withClient_access_token [of ?h2 ?cb 0] o2 f2 by blast
  have o3: "or_else (?h3 ''authorization'') (?h3 ''Authorization'') = Some ''EAAtoken''"
    by (simp add: or_else_def truthy_str_def)
  have m3: "bearerMatch ''EAAtoken'' = None"
    by (simp add: bearerMatch_def bearer_prefix_def)
  have c: "withClient ?h3 ?cb 0 = ?cb \<lparr>client_accessToken = ''EAAtoken''\<rparr> 0"
    using withClient_access_token [of ?h3 ?cb 0] o3 m3 by blast
  show ?thesis using a b m3 c by simp
qed

lemma bearerMatch_examples:
  "bearerMatch ''Bearer abc'' = Some ''abc''"
  "bearerMatch ''bearer   x y'' = Some ''x y''"
  "bearerMatch ''Bearer  '' = Some '' ''"
  "bearerMatch ''Bearer '' = None"
  "bearerMatch ''Bearerabc'' = None"
  "bearerMatch ''Basic abc'' = None"
  by (simp_all add: bearerMatch_def bearer_prefix_def is_whitespace_def dot_plus_to_end_def
      is_line_terminator_def)

section \<open>Stored tokens (TokenManager, MemoryTokenStorage)\<close>

record TokenData =
  td_access_token :: string
  td_token_type :: string
  td_expires_in :: "int option"
  td_refresh_token :: "string option"
  td_scope :: "string option"
  td_expires_at :: "int option"
  td_user_id :: "string option"
  td_created_at :: int

text \<open>\<open>Buffer.toString('hex')\<close>: two lower-case hexadecimal digits for each byte.\<close>

definition hex_digit :: "nat \<Rightarrow> char" where
  "hex_digit n = ''0123456789abcdef'' ! (n mod 16)"

definition toString_hex :: "nat list \<Rightarrow> string" where
  "toString_hex bytes = concat (map (\<lambda>b. [hex_digit (b div 16), hex_digit b]) bytes)"

text \<open>\<open>String.prototype.split\<close> and \<open>Array.prototype.join\<close> with a one-character separator.\<close>

fun split_on :: "char \<Rightarrow> string \<Rightarrow> string list" where
  "split_on sep [] = [[]]"
| "split_on sep (c # cs) =
     (if c = sep then [] # split_on sep cs
      else (case split_on sep cs of [] \<Rightarrow> [[c]] | p # ps \<Rightarrow> (c # p) # ps))"

fun join_with :: "char \<Rightarrow> string list \<Rightarrow> string" where
  "join_with sep [] = []"
| "join_with sep [p] = p"
| "join_with sep (p # q # ps) = p @ sep # join_with sep (q # ps)"

text \<open>
  The \<open>crypto\<close> module of the runtime, as far as \<open>encrypt\<close> and \<open>decrypt\<close> use it:
  \<open>scryptSync(password, salt, keylen)\<close>, and \<open>createCipher\<close> and \<open>createDecipher\<close>. For
  an algorithm and a key, the cipher function stands for the object that
  \<open>createCipher(algorithm, key)\<close> makes and for its \<open>update(data, inputEncoding,
  outputEncoding) + final(outputEncoding)\<close>, which returns a string or throws. The module
  has these two functions or not: Node.js removed \<open>crypto.createCipher\<close> and
  \<open>crypto.createDecipher\<close> in version 22, and the package's \<open>engines\<close> entry admits
  every version from 18 on. Calling a function the module does not have throws a \<open>TypeError\<close>.
\<close>

datatype encoding = Utf8 | Hex

type_synonym cipher_fun = "string \<Rightarrow> nat list \<Rightarrow> string \<Rightarrow> encoding \<Rightarrow> encoding \<Rightarrow> string outcome"

record node_crypto =
  scryptSync :: "string \<Rightarrow> string \<Rightarrow> nat \<Rightarrow> nat list"
  createCipher :: "cipher_fun option"
  createDecipher :: "cipher_fun option"

text \<open>
  \<open>encrypt\<close> and \<open>decrypt\<close> of the manager with encryption key \<open>encryptionKey\<close>;
  \<open>iv\<close> is the sixteen bytes of \<open>randomBytes(16)\<close>, which go into the result and nowhere
  else.
\<close>

definition encrypt :: "node_crypto \<Rightarrow> string \<Rightarrow> nat list \<Rightarrow> string \<Rightarrow> string outcome" where
  "encrypt crypto encryptionKey iv text =
     (let algorithm = ''aes-256-cbc'';
          key = scryptSync crypto encryptionKey ''salt'' 32
      in case createCipher crypto of
           None \<Rightarrow> Throws (Error ''crypto.createCipher is not a function'')
         | Some cipher \<Rightarrow>
             (case cipher algorithm key text Utf8 Hex of
                Throws e \<Rightarrow> Throws e
              | Returns encrypted \<Rightarrow> Returns (toString_hex iv @ '':'' @ encrypted)))"

definition decrypt :: "node_crypto \<Rightarrow> string \<Rightarrow> string \<Rightarrow> string outcome" where
  "decrypt crypto encryptionKey encryptedText =
     (let algorithm = ''aes-256-cbc'';
          key = scryptSync crypto encryptionKey ''salt'' 32;
          textParts = split_on (CHR '':'') encryptedText;
          encrypted = join_with (CHR '':'') (tl textParts)
      in case createDecipher crypto of
           None \<Rightarrow> Throws (Error ''crypto.createDecipher is not a function'')
         | Some decipher \<Rightarrow> decipher algorithm key encrypted Hex Utf8)"

text \<open>\<open>MemoryTokenStorage\<close>: a map from user ids to token records.\<close>

type_synonym token_store = "string \<Rightarrow> TokenData option"

definition store :: "string \<Rightarrow> TokenData \<Rightarrow> int \<Rightarrow> token_store \<Rightarrow> token_store" where
  "store userId tokenData now tokens = tokens(userId \<mapsto> tokenData\<lparr>td_created_at := now\<rparr>)"

definition retrieve :: "string \<Rightarrow> token_store \<Rightarrow> TokenData option" where
  "retrieve userId tokens = tokens userId"

text \<open>
  \<open>storeToken\<close>: \<open>t_now\<close> is the clock read for \<open>expires_at\<close>, \<open>t_store\<close> the one of
  the storage; \<open>iv1\<close> and \<open>iv2\<close> are the random bytes of the two \<open>encrypt\<close> calls. The
  result is the storage after the call, or the exception of an \<open>encrypt\<close> that throws, in
  which case \<open>storage.store\<close> is not reached and the storage stays as it was.
\<close>

definition storeToken ::
  "node_crypto \<Rightarrow> string \<Rightarrow> nat list \<Rightarrow> nat list \<Rightarrow> string \<Rightarrow> TokenData \<Rightarrow> int \<Rightarrow> int
     \<Rightarrow> token_store \<Rightarrow> token_store outcome" where
  "storeToken crypto encryptionKey iv1 iv2 userId tokenData t_now t_store tokens =
     (let tokenData1 =
            (case td_expires_in tokenData of
               None \<Rightarrow> tokenData
             | Some n \<Rightarrow> if n \<noteq> 0 then tokenData\<lparr>td_expires_at := Some (t_now + n * 1000)\<rparr>
                         else tokenData)
      in case encrypt crypto encryptionKey iv1 (td_access_token tokenData1) of
           Throws e \<Rightarrow> Throws e
         | Returns access \<Rightarrow>
             (case td_refresh_token tokenData1 of
                None \<Rightarrow>
                  Returns (store userId
                    (tokenData1\<lparr>td_access_token := access, td_refresh_token := None\<rparr>)
                    t_store tokens)
              | Some r \<Rightarrow>
                  if r \<noteq> [] then
                    (case encrypt crypto encryptionKey iv2 r of
                       Throws e \<Rightarrow> Throws e
                     | Returns refresh \<Rightarrow>
                         Returns (store userId
                           (tokenData1\<lparr>td_access_token := access,
                                        td_refresh_token := Some refresh\<rparr>)
                           t_store tokens))
                  else
                    Returns (store userId
                      (tokenData1\<lparr>td_access_token := access, td_refresh_token := None\<rparr>)
                      t_store tokens)))"

definition getToken ::
  "node_crypto \<Rightarrow> string \<Rightarrow> string \<Rightarrow> token_store \<Rightarrow> TokenData option outcome" where
  "getToken crypto encryptionKey userId tokens =
     (case retrieve userId tokens of
        None \<Rightarrow> Returns None
      | Some tokenData \<Rightarrow>
          (case decrypt crypto encryptionKey (td_access_token tokenData) of
             Throws e \<Rightarrow> Throws e
           | Returns access \<Rightarrow>
               (case td_refresh_token tokenData of
                  None \<Rightarrow> Returns (Some (tokenData\<lparr>td_access_token := access,
                                                     td_refresh_token := None\<rparr>))
                | Some r \<Rightarrow>
                    if r \<noteq> [] then
                      (case decrypt crypto encryptionKey r of
                         Throws e \<Rightarrow> Throws e
                       | Returns refresh \<Rightarrow>
                           Returns (Some (tokenData\<lparr>td_access_token := access,
                                                    td_refresh_token := Some refresh\<rparr>)))
                    else Returns (Some (tokenData\<lparr>td_access_token := access,
                                                   td_refresh_token := None\<rparr>)))))"

lemma split_on_nonempty: "split_on sep s \<noteq> []"
  by (induction s) (auto split: list.splits)

lemma join_split: "join_with sep (split_on sep s) = s"
proof (induction s)
  case Nil
  then show ?case by simp
next
  case (Cons c cs)
  show ?case
  proof (cases "c = sep")
    case True
    obtain p ps where "split_on sep cs = p # ps"
      using split_on_nonempty [of sep cs] by (cases "split_on sep cs") auto
    with True Cons.IH show ?thesis by simp
  next
    case False
    obtain p ps where sp: "split_on sep cs = p # ps"
      using split_on_nonempty [of sep cs] by (cases "split_on sep cs") auto
    with Cons.IH have "join_with sep (p # ps) = cs" by simp
    then have "join_with sep ((c # p) # ps) = c # cs" by (cases ps) auto
    with False sp show ?thesis by simp
  qed
qed

lemma split_on_prefix:
  "sep \<notin> set a \<Longrightarrow> split_on sep (a @ sep # b) = a # split_on sep b"
  by (induction a) auto

lemma hex_digit_not_colon: "hex_digit n \<noteq> CHR '':''"
proof -
  have "n mod 16 < length ''0123456789abcdef''" by simp
  then have "''0123456789abcdef'' ! (n mod 16) \<in> set ''0123456789abcdef''"
    by (rule nth_mem)
  moreover have "CHR '':'' \<notin> set ''0123456789abcdef''" by simp
  ultimately show ?thesis unfolding hex_digit_def by metis
qed

lemma toString_hex_no_colon: "CHR '':'' \<notin> set (toString_hex iv)"
  by (induction iv) (auto simp: toString_hex_def hex_digit_not_colon [symmetric])

text \<open>
  Where the runtime has both functions, \<open>decrypt\<close> hands to the decipher exactly what the
  cipher returned, under the same algorithm and the same derived key: the prefix with the
  initialisation vector is taken off again.
\<close>

lemma decrypt_encrypt_framing:
  assumes "createCipher crypto = Some cipher"
    and "cipher ''aes-256-cbc'' (scryptSync crypto k ''salt'' 32) plain Utf8 Hex = Returns e"
    and "createDecipher crypto = Some decipher"
  shows "encrypt crypto k iv plain = Returns (toString_hex iv @ '':'' @ e)"
    and "decrypt crypto k (toString_hex iv @ '':'' @ e)
           = decipher ''aes-256-cbc'' (scryptSync crypto k ''salt'' 32) e Hex Utf8"
proof -
  show "encrypt crypto k iv plain = Returns (toString_hex iv @ '':'' @ e)"
    using assms(1,2) by (simp add: encrypt_def)
  have "split_on (CHR '':'') (toString_hex iv @ CHR '':'' # e)
          = toString_hex iv # split_on (CHR '':'') e"
    using toString_hex_no_colon by (rule split_on_prefix)
  then show "decrypt crypto k (toString_hex iv @ '':'' @ e)
           = decipher ''aes-256-cbc'' (scryptSync crypto k ''salt'' 32) e Hex Utf8"
    using assms(3) by (simp add: decrypt_def join_split)
qed

text \<open>
  Claim C6 does not hold of the code on every runtime that the package admits. On a
  runtime without \<open>crypto.createCipher\<close> (Node.js 22 and later), \<open>encrypt\<close> throws a
  \<open>TypeError\<close> for every string; \<open>storeToken\<close> then throws for every user id and every
  token record and stores nothing, so that a \<open>getToken\<close> for a user without an earlier
  record returns \<open>null\<close> instead of the record.
\<close>

theorem storeToken_throws_without_createCipher:
  "encrypt (crypto\<lparr>createCipher := None\<rparr>) encryptionKey iv plain
     = Throws (Error ''crypto.createCipher is not a function'')
   \<and> storeToken (crypto\<lparr>createCipher := None\<rparr>) encryptionKey iv1 iv2 userId tokenData
        t_now t_store tokens
     = Throws (Error ''crypto.createCipher is not a function'')
   \<and> getToken (crypto\<lparr>createCipher := None\<rparr>) encryptionKey userId (tokens(userId := None))
     = Returns None"
proof -
  have e: "\<And>iv plain. encrypt (crypto\<lparr>createCipher := None\<rparr>) encryptionKey iv plain
             = Throws (Error ''crypto.createCipher is not a function'')"
    by (simp add: encrypt_def)
  have s: "storeToken (crypto\<lparr>createCipher := None\<rparr>) encryptionKey iv1 iv2 userId tokenData
             t_now t_store tokens
           = Throws (Error ''crypto.createCipher is not a function'')"
    by (simp add: storeToken_def e)
  have g: "getToken (crypto\<lparr>createCipher := None\<rparr>) encryptionKey userId
             (tokens(userId := None)) = Returns None"
    by (simp add: getToken_def retrieve_def)
  from e [of iv plain] s g show ?thesis by (intro conjI)
qed

section \<open>The OAuth callback (FacebookOAuthHandler)\<close>

record OAuthConfig =
  clientId :: string
  clientSecret :: string
  redirectUri :: string
  scope :: "string option"
  successRedirect :: "string option"
  errorRedirect :: "string option"

text \<open>The entries of \<open>stateStore\<close>: \<open>{ userId, timestamp }\<close>, the timestamp being the expiry.\<close>

record state_entry =
  se_userId :: string
  se_timestamp :: int

text \<open>
  What the handler works with besides its own state: its configuration, the platform's
  \<open>encodeURIComponent\<close> and \<open>URLSearchParams.toString\<close>, the answer of the token endpoint
  to \<open>exchangeCodeForToken(code)\<close> (a token record, or an exception), and
  \<open>tokenManager.storeToken\<close>.
\<close>

record oauth_env =
  config :: OAuthConfig
  encodeURIComponent :: "string \<Rightarrow> string"
  params_toString :: "(string \<times> string) list \<Rightarrow> string"
  exchangeCodeForToken :: "string \<Rightarrow> TokenData outcome"
  tokenManager_storeToken :: "string \<Rightarrow> TokenData \<Rightarrow> token_store \<Rightarrow> token_store outcome"

text \<open>
  The handler's state: the state store, the token manager's storage, and the log of the
  token exchanges it has started (the code sent, with the state of the callback that sent it).
\<close>

record oauth_world =
  w_stateStore :: "string \<Rightarrow> state_entry option"
  w_exchanged :: "(string \<times> string) list"
  w_tokens :: token_store

datatype redirect = Redirect string

text \<open>\<open>x || fallback\<close> for an optional string and a string.\<close>

definition or_default :: "string option \<Rightarrow> string \<Rightarrow> string" where
  "or_default x d = (case x of None \<Rightarrow> d | Some v \<Rightarrow> if v \<noteq> [] then v else d)"

definition redirectWithError :: "oauth_env \<Rightarrow> string \<Rightarrow> redirect" where
  "redirectWithError env error =
     Redirect (or_default (errorRedirect (config env)) ''/login'' @ ''?error=''
               @ encodeURIComponent env error)"

text \<open>
  \<open>generateAuthUrl\<close>: \<open>rnd\<close> are the bytes of \<open>crypto.randomBytes(32)\<close>, whose hex
  string is the state.
\<close>

definition generateSecureState :: "nat list \<Rightarrow> string" where
  "generateSecureState rnd = toString_hex rnd"

definition generateAuthUrl ::
  "oauth_env \<Rightarrow> string \<Rightarrow> nat list \<Rightarrow> int \<Rightarrow> oauth_world \<Rightarrow> string \<times> oauth_world" where
  "generateAuthUrl env userId rnd now w =
     (let state = generateSecureState rnd;
          w' = w\<lparr>w_stateStore := (w_stateStore w)
                  (state \<mapsto> \<lparr>se_userId = userId, se_timestamp = now + 10 * 60 * 1000\<rparr>)\<rparr>;
          params = params_toString env
            [(''client_id'', clientId (config env)),
             (''redirect_uri'', redirectUri (config env)),
             (''response_type'', ''code''),
             (''scope'', or_default (scope (config env))
                ''ads_management,ads_read,business_management''),
             (''state'', state)]
      in (''https://www.facebook.com/v23.0/dialog/oauth?'' @ params, w'))"

text \<open>The query of the callback request: \<open>code\<close>, \<open>state\<close>, \<open>error\<close>, \<open>error_description\<close>.\<close>

record callback_query =
  q_code :: "string option"
  q_state :: "string option"
  q_error :: "string option"
  q_error_description :: "string option"

definition handleCallback ::
  "oauth_env \<Rightarrow> callback_query \<Rightarrow> int \<Rightarrow> oauth_world \<Rightarrow> redirect \<times> oauth_world" where
  "handleCallback env q now w =
     (if truthy_str (q_error q) then
        (redirectWithError env (or_default (q_error_description q) ''OAuth authentication failed''), w)
      else
        (case (q_code q, q_state q) of
           (Some code, Some state) \<Rightarrow>
             if code = [] \<or> state = [] then
               (redirectWithError env ''Missing required OAuth parameters'', w)
             else
               (case w_stateStore w state of
                  None \<Rightarrow> (redirectWithError env ''Invalid or expired state parameter'', w)
                | Some stateData \<Rightarrow>
                    if se_timestamp stateData < now then
                      (redirectWithError env ''Invalid or expired state parameter'', w)
                    else
                      (let w1 = w\<lparr>w_stateStore := (w_stateStore w)(state := None),
                                   w_exchanged := w_exchanged w @ [(state, code)]\<rparr>
                       in case exchangeCodeForToken env code of
                            Throws e \<Rightarrow> (redirectWithError env ''Authentication failed'', w1)
                          | Returns tokenData \<Rightarrow>
                              (case tokenManager_storeToken env (se_userId stateData) tokenData
                                      (w_tokens w1) of
                                 Throws e \<Rightarrow>
                                   (redirectWithError env ''Authentication failed'', w1)
                               | Returns tokens' \<Rightarrow>
                                   (Redirect (or_default (successRedirect (config env))
                                                ''/dashboard'' @ ''?success=true''),
                                    w1\<lparr>w_tokens := tokens'\<rparr>))))
         | _ \<Rightarrow> (redirectWithError env ''Missing required OAuth parameters'', w)))"

definition cleanupExpiredStates :: "int \<Rightarrow> oauth_world \<Rightarrow> oauth_world" where
  "cleanupExpiredStates now w =
     w\<lparr>w_stateStore :=
         (\<lambda>state. case w_stateStore w state of
                     None \<Rightarrow> None
                   | Some d \<Rightarrow> if se_timestamp d < now then None else Some d)\<rparr>"

text \<open>
  A history of the handler: calls of \<open>generateAuthUrl\<close>, callbacks, and runs of the hourly
  clean-up, each with the clock it reads.
\<close>

datatype oauth_op =
    GenerateAuthUrl string "nat list" int
  | HandleCallback callback_query int
  | CleanupExpiredStates int

fun oauth_step :: "oauth_env \<Rightarrow> oauth_world \<Rightarrow> oauth_op \<Rightarrow> oauth_world" where
  "oauth_step env w (GenerateAuthUrl userId rnd now) = snd (generateAuthUrl env userId rnd now w)"
| "oauth_step env w (HandleCallback q now) = snd (handleCallback env q now w)"
| "oauth_step env w (CleanupExpiredStates now) = cleanupExpiredStates now w"

definition oauth_run :: "oauth_env \<Rightarrow> oauth_op list \<Rightarrow> oauth_world \<Rightarrow> oauth_world" where
  "oauth_run env ops w = foldl (oauth_step env) w ops"

definition oauth_init :: "token_store \<Rightarrow> oauth_world" where
  "oauth_init tokens = \<lparr>w_stateStore = Map.empty, w_exchanged = [], w_tokens = tokens\<rparr>"

text \<open>The states issued in a history, in order.\<close>

fun issued_states :: "oauth_op list \<Rightarrow> string list" where
  "issued_states [] = []"
| "issued_states (GenerateAuthUrl userId rnd now # ops) = generateSecureState rnd # issued_states ops"
| "issued_states (_ # ops) = issued_states ops"

text \<open>
  When a callback goes on to the token exchange: no \<open>error\<close> parameter, a code and a state,
  and the state in the store with an expiry that has not passed.
\<close>

definition callback_accepts :: "callback_query \<Rightarrow> int \<Rightarrow> oauth_world \<Rightarrow> bool" where
  "callback_accepts q now w =
     (\<not> truthy_str (q_error q) \<and> truthy_str (q_code q) \<and> truthy_str (q_state q)
      \<and> (case q_state q of
            None \<Rightarrow> False
          | Some state \<Rightarrow>
              (case w_stateStore w state of
                 None \<Rightarrow> False
               | Some d \<Rightarrow> now \<le> se_timestamp d)))"

lemma handleCallback_accept:
  assumes "callback_accepts q now w"
  shows "\<exists>code state d. q_code q = Some code \<and> q_state q = Some state
           \<and> w_stateStore w state = Some d \<and> now \<le> se_timestamp d
           \<and> w_stateStore (snd (handleCallback env q now w)) = (w_stateStore w)(state := None)
           \<and> w_exchanged (snd (handleCallback env q now w)) = w_exchanged w @ [(state, code)]"
proof -
  from assms obtain code state d where
    c: "q_code q = Some code" "code \<noteq> []" and s: "q_state q = Some state" "state \<noteq> []"
    and d: "w_stateStore w state = Some d" "now \<le> se_timestamp d"
    and e: "\<not> truthy_str (q_error q)"
    by (auto simp: callback_accepts_def truthy_str_def split: option.splits)
  have "w_stateStore (snd (handleCallback env q now w)) = (w_stateStore w)(state := None)
      \<and> w_exchanged (snd (handleCallback env q now w)) = w_exchanged w @ [(state, code)]"
    using c s d e
    by (cases "exchangeCodeForToken env code")
       (auto simp: handleCallback_def Let_def split: outcome.splits)
  with c s d show ?thesis by blast
qed

lemma handleCallback_reject:
  assumes "\<not> callback_accepts q now w"
  shows "snd (handleCallback env q now w) = w
       \<and> (\<exists>m. fst (handleCallback env q now w) = redirectWithError env m)"
  using assms
  by (auto simp: handleCallback_def callback_accepts_def truthy_str_def
      split: option.splits)

lemma accepted_state_consumed:
  assumes "callback_accepts q now w"
  shows "\<not> callback_accepts (q\<lparr>q_code := c'\<rparr>) now' (snd (handleCallback env q now w))"
proof -
  from handleCallback_accept [OF assms, of env] obtain state where
    "q_state q = Some state"
    "w_stateStore (snd (handleCallback env q now w)) = (w_stateStore w)(state := None)"
    by blast
  then show ?thesis by (simp add: callback_accepts_def)
qed

lemma issued_states_append:
  "issued_states (xs @ ys) = issued_states xs @ issued_states ys"
  by (induction xs rule: issued_states.induct) simp_all

lemma oauth_run_snoc:
  "oauth_run env (ops @ [x]) w = oauth_step env (oauth_run env ops w) x"
  by (simp add: oauth_run_def)

text \<open>
  The invariant of a history: the stored states were issued and have not been exchanged, and
  no state was exchanged twice.
\<close>

definition states_unused :: "oauth_op list \<Rightarrow> oauth_world \<Rightarrow> bool" where
  "states_unused ops w =
     (distinct (map fst (w_exchanged w))
      \<and> fst ` set (w_exchanged w) \<subseteq> set (issued_states ops)
      \<and> (\<forall>s d. w_stateStore w s = Some d \<longrightarrow>
             s \<in> set (issued_states ops) \<and> s \<notin> fst ` set (w_exchanged w)))"

lemma states_unused_step:
  assumes inv: "states_unused ops w" and fresh: "distinct (issued_states (ops @ [x]))"
  shows "states_unused (ops @ [x]) (oauth_step env w x)"
proof (cases x)
  case (GenerateAuthUrl userId rnd now)
  from fresh GenerateAuthUrl have new: "generateSecureState rnd \<notin> set (issued_states ops)"
    by (simp add: issued_states_append)
  with inv have "generateSecureState rnd \<notin> fst ` set (w_exchanged w)"
    by (auto simp: states_unused_def)
  with inv GenerateAuthUrl show ?thesis
    by (auto simp: states_unused_def generateAuthUrl_def issued_states_append Let_def)
next
  case (HandleCallback q now)
  show ?thesis
  proof (cases "callback_accepts q now w")
    case True
    from handleCallback_accept [OF True, of env] obtain code state d where
      st: "w_stateStore w state = Some d"
      and store': "w_stateStore (snd (handleCallback env q now w)) = (w_stateStore w)(state := None)"
      and ex': "w_exchanged (snd (handleCallback env q now w)) = w_exchanged w @ [(state, code)]"
      by blast
    from inv st have "state \<in> set (issued_states ops)" "state \<notin> fst ` set (w_exchanged w)"
      by (auto simp: states_unused_def)
    with inv HandleCallback store' ex' show ?thesis
      by (auto simp: states_unused_def issued_states_append)
  next
    case False
    from handleCallback_reject [OF False, of env] have "snd (handleCallback env q now w) = w"
      by blast
    with inv HandleCallback show ?thesis
      by (simp add: states_unused_def issued_states_append)
  qed
next
  case (CleanupExpiredStates now)
  with inv show ?thesis
    by (auto simp: states_unused_def cleanupExpiredStates_def issued_states_append
        split: option.splits if_splits)
qed

lemma states_unused_run:
  "distinct (issued_states ops) \<Longrightarrow> states_unused ops (oauth_run env ops (oauth_init tokens))"
proof (induction ops rule: rev_induct)
  case Nil
  then show ?case by (simp add: states_unused_def oauth_run_def oauth_init_def)
next
  case (snoc x xs)
  from snoc.prems have "distinct (issued_states xs)" by (simp add: issued_states_append)
  with snoc.IH have "states_unused xs (oauth_run env xs (oauth_init tokens))" by blast
  from states_unused_step [OF this snoc.prems, of env] show ?case
    by (simp add: oauth_run_snoc)
qed

text \<open>Every stored state was put there by \<open>generateAuthUrl\<close>, with its ten-minute expiry.\<close>

definition state_issued_by :: "oauth_op list \<Rightarrow> string \<Rightarrow> state_entry \<Rightarrow> bool" where
  "state_issued_by ops s d =
     list_ex (\<lambda>op. case op of
                     GenerateAuthUrl userId rnd t \<Rightarrow>
                       s = generateSecureState rnd \<and> se_userId d = userId
                       \<and> se_timestamp d = t + 10 * 60 * 1000
                   | _ \<Rightarrow> False) ops"

lemma stored_states_issued:
  "w_stateStore (oauth_run env ops (oauth_init tokens)) s = Some d \<Longrightarrow> state_issued_by ops s d"
proof (induction ops arbitrary: s d rule: rev_induct)
  case Nil
  then show ?case by (simp add: oauth_run_def oauth_init_def)
next
  case (snoc x xs)
  let ?w = "oauth_run env xs (oauth_init tokens)"
  have mono: "\<And>s d. state_issued_by xs s d \<Longrightarrow> state_issued_by (xs @ [x]) s d"
    by (auto simp: state_issued_by_def)
  show ?case
  proof (cases x)
    case (GenerateAuthUrl userId rnd now)
    show ?thesis
    proof (cases "s = generateSecureState rnd")
      case True
      with snoc.prems GenerateAuthUrl have "d = \<lparr>se_userId = userId, se_timestamp = now + 10 * 60 * 1000\<rparr>"
        by (simp add: oauth_run_snoc generateAuthUrl_def Let_def)
      with True GenerateAuthUrl show ?thesis by (auto simp: state_issued_by_def)
    next
      case False
      with snoc.prems GenerateAuthUrl have "w_stateStore ?w s = Some d"
        by (simp add: oauth_run_snoc generateAuthUrl_def Let_def)
      then show ?thesis using snoc.IH mono by blast
    qed
  next
    case (HandleCallback q now)
    have "w_stateStore ?w s = Some d"
    proof (cases "callback_accepts q now ?w")
      case True
      from handleCallback_accept [OF True, of env] obtain state where
        "w_stateStore (snd (handleCallback env q now ?w)) = (w_stateStore ?w)(state := None)"
        by blast
      with snoc.prems HandleCallback show ?thesis
        by (auto simp: oauth_run_snoc split: if_splits)
    next
      case False
      from handleCallback_reject [OF False, of env] snoc.prems HandleCallback show ?thesis
        by (simp add: oauth_run_snoc)
    qed
    then show ?thesis using snoc.IH mono by blast
  next
    case (CleanupExpiredStates now)
    with snoc.prems have "w_stateStore ?w s = Some d"
      by (auto simp: oauth_run_snoc cleanupExpiredStates_def split: option.splits if_splits)
    then show ?thesis using snoc.IH mono by blast
  qed
qed

text \<open>
  Claim C2. A callback goes on to the token exchange exactly when it carries no error,
  a code, and a state that is in the state store with an expiry that has not passed; every
  stored state was issued by \<open>generateAuthUrl\<close> with an expiry ten minutes after its issue
  and has not been exchanged before. Otherwise the handler redirects to the error page and
  changes nothing: no code is exchanged. An accepted state is deleted, so the same state is
  refused afterwards whatever the code and the time, and in every history whose issued
  states are pairwise different no state is exchanged twice.
\<close>

theorem handleCallback_state_single_use:
  assumes "distinct (issued_states ops)"
  shows "(callback_accepts q now w \<longrightarrow>
            (\<exists>code state. q_code q = Some code \<and> q_state q = Some state
               \<and> w_exchanged (snd (handleCallback env q now w)) = w_exchanged w @ [(state, code)]
               \<and> w_stateStore (snd (handleCallback env q now w))
                   = (w_stateStore w)(state := None))
            \<and> \<not> callback_accepts (q\<lparr>q_code := c'\<rparr>) now' (snd (handleCallback env q now w)))
       \<and> (\<not> callback_accepts q now w \<longrightarrow>
            snd (handleCallback env q now w) = w
            \<and> (\<exists>m. fst (handleCallback env q now w) = redirectWithError env m))
       \<and> distinct (map fst (w_exchanged (oauth_run env ops (oauth_init tokens))))
       \<and> (\<forall>s d. w_stateStore (oauth_run env ops (oauth_init tokens)) s = Some d \<longrightarrow>
             state_issued_by ops s d
             \<and> s \<notin> fst ` set (w_exchanged (oauth_run env ops (oauth_init tokens))))"
proof -
  have acc: "callback_accepts q now w \<longrightarrow>
            (\<exists>code state. q_code q = Some code \<and> q_state q = Some state
               \<and> w_exchanged (snd (handleCallback env q now w)) = w_exchanged w @ [(state, code)]
               \<and> w_stateStore (snd (handleCallback env q now w))
                   = (w_stateStore w)(state := None))
            \<and> \<not> callback_accepts (q\<lparr>q_code := c'\<rparr>) now' (snd (handleCallback env q now w))"
  proof
    assume a: "callback_accepts q now w"
    from handleCallback_accept [OF a, of env] have
      "\<exists>code state. q_code q = Some code \<and> q_state q = Some state
         \<and> w_exchanged (snd (handleCallback env q now w)) = w_exchanged w @ [(state, code)]
         \<and> w_stateStore (snd (handleCallback env q now w)) = (w_stateStore w)(state := None)"
      by blast
    moreover from accepted_state_consumed [OF a]
    have "\<not> callback_accepts (q\<lparr>q_code := c'\<rparr>) now' (snd (handleCallback env q now w))" .
    ultimately show "(\<exists>code state. q_code q = Some code \<and> q_state q = Some state
               \<and> w_exchanged (snd (handleCallback env q now w)) = w_exchanged w @ [(state, code)]
               \<and> w_stateStore (snd (handleCallback env q now w))
                   = (w_stateStore w)(state := None))
            \<and> \<not> callback_accepts (q\<lparr>q_code := c'\<rparr>) now' (snd (handleCallback env q now w))"
      by (rule conjI)
  qed
  have rej: "\<not> callback_accepts q now w \<longrightarrow>
            snd (handleCallback env q now w) = w
            \<and> (\<exists>m. fst (handleCallback env q now w) = redirectWithError env m)"
    using handleCallback_reject by blast
  let ?w = "oauth_run env ops (oauth_init tokens)"
  have inv: "states_unused ops ?w" using assms by (rule states_unused_run)
  then have dist: "distinct (map fst (w_exchanged ?w))" by (simp add: states_unused_def)
  have stored: "\<forall>s d. w_stateStore ?w s = Some d \<longrightarrow>
                  state_issued_by ops s d \<and> s \<notin> fst ` set (w_exchanged ?w)"
  proof (intro allI impI)
    fix s d
    assume "w_stateStore ?w s = Some d"
    then show "state_issued_by ops s d \<and> s \<notin> fst ` set (w_exchanged ?w)"
      using inv stored_states_issued [of env ops tokens s d]
      by (simp add: states_unused_def)
  qed
  from acc rej dist stored show ?thesis by (intro conjI)
qed

text \<open>A handler environment and a callback query for the concrete runs below.\<close>

definition sample_token :: TokenData where
  "sample_token =
     \<lparr>td_access_token = ''EAAtoken0001'', td_token_type = ''Bearer'',
      td_expires_in = Some 3600, td_refresh_token = None, td_scope = None,
      td_expires_at = None, td_user_id = Some ''m1'', td_created_at = 5\<rparr>"

definition sample_crypto :: node_crypto where
  "sample_crypto =
     \<lparr>scryptSync = (\<lambda>password salt keylen. replicate keylen 0),
      createCipher = Some (\<lambda>algorithm key plain inputEncoding outputEncoding. Returns (rev plain)),
      createDecipher = Some (\<lambda>algorithm key encrypted inputEncoding outputEncoding.
                              Returns (rev encrypted))\<rparr>"

definition sample_oauth_env :: oauth_env where
  "sample_oauth_env =
     \<lparr>config = \<lparr>clientId = ''app'', clientSecret = ''secret'',
                redirectUri = ''https://example.org/callback'', scope = None,
                successRedirect = None, errorRedirect = None\<rparr>,
      encodeURIComponent = (\<lambda>s. s),
      params_toString = (\<lambda>ps. concat (map (\<lambda>(k, v). k @ ''='' @ v @ ''&'') ps)),
      exchangeCodeForToken = (\<lambda>code. Returns sample_token),
      tokenManager_storeToken =
        (\<lambda>userId tokenData tokens.
           storeToken sample_crypto ''key'' [1] [2] userId tokenData 0 0 tokens)\<rparr>"

definition sample_query :: callback_query where
  "sample_query =
     \<lparr>q_code = Some ''c1'', q_state = Some ''abcd'', q_error = None,
      q_error_description = None\<rparr>"

lemma sample_state: "generateSecureState [171, 205] = ''abcd''"
  by (simp add: generateSecureState_def toString_hex_def hex_digit_def)

theorem handleCallback_state_single_use_witness:
  "distinct (issued_states [GenerateAuthUrl ''u1'' [171, 205] 1000,
                            HandleCallback sample_query 2000,
                            HandleCallback sample_query 3000])
   \<and> callback_accepts sample_query 2000
        (oauth_run sample_oauth_env [GenerateAuthUrl ''u1'' [171, 205] 1000]
           (oauth_init Map.empty))
   \<and> \<not> callback_accepts sample_query 3000
        (oauth_run sample_oauth_env
           [GenerateAuthUrl ''u1'' [171, 205] 1000, HandleCallback sample_query 2000]
           (oauth_init Map.empty))
   \<and> w_exchanged (oauth_run sample_oauth_env
        [GenerateAuthUrl ''u1'' [171, 205] 1000, HandleCallback sample_query 2000,
         HandleCallback sample_query 3000] (oauth_init Map.empty)) = [(''abcd'', ''c1'')]
   \<and> \<not> callback_accepts sample_query 700000
        (oauth_run sample_oauth_env [GenerateAuthUrl ''u1'' [171, 205] 1000]
           (oauth_init Map.empty))"
proof -
  let ?g = "GenerateAuthUrl ''u1'' [171, 205] 1000"
  let ?w1 = "oauth_run sample_oauth_env [?g] (oauth_init Map.empty)"
  let ?w2 = "oauth_run sample_oauth_env [?g, HandleCallback sample_query 2000]
               (oauth_init Map.empty)"
  let ?w3 = "oauth_run sample_oauth_env [?g, HandleCallback sample_query 2000,
               HandleCallback sample_query 3000] (oauth_init Map.empty)"
  have d: "distinct (issued_states [?g, HandleCallback sample_query 2000,
                                    HandleCallback sample_query 3000])"
    by simp
  have st1: "w_stateStore ?w1
               = [''abcd'' \<mapsto> \<lparr>se_userId = ''u1'', se_timestamp = 601000\<rparr>]"
    by (simp add: oauth_run_def oauth_init_def generateAuthUrl_def sample_state Let_def)
  have ex1: "w_exchanged ?w1 = []"
    by (simp add: oauth_run_def oauth_init_def generateAuthUrl_def Let_def)
  have a1: "callback_accepts sample_query 2000 ?w1"
    by (simp add: callback_accepts_def sample_query_def truthy_str_def st1)
  have late: "\<not> callback_accepts sample_query 700000 ?w1"
    by (simp add: callback_accepts_def sample_query_def truthy_str_def st1)
  have w2: "?w2 = snd (handleCallback sample_oauth_env sample_query 2000 ?w1)"
    by (simp add: oauth_run_def)
  have w3: "?w3 = snd (handleCallback sample_oauth_env sample_query 3000 ?w2)"
    by (simp add: oauth_run_def)
  note th = handleCallback_state_single_use [OF d, of sample_query 2000 ?w1 sample_oauth_env
      "Some ''c1''" 3000 Map.empty]
  have q: "sample_query\<lparr>q_code := Some ''c1''\<rparr> = sample_query"
    by (simp add: sample_query_def)
  from th a1 have r2: "\<not> callback_accepts sample_query 3000 ?w2"
    using q w2 by simp
  from th a1 ex1 have e2: "w_exchanged ?w2 = [(''abcd'', ''c1'')]"
    using w2 by (auto simp: sample_query_def)
  note th3 = handleCallback_state_single_use [OF d, of sample_query 3000 ?w2 sample_oauth_env
      "Some ''c1''" 3000 Map.empty]
  from th3 r2 have "?w3 = ?w2" using w3 by simp
  with e2 have e3: "w_exchanged ?w3 = [(''abcd'', ''c1'')]" by simp
  from d a1 r2 e3 late show ?thesis by (intro conjI)
qed

section \<open>Graph API requests (BaseApiClient)\<close>

datatype http_method = GET | POST | DELETE

text \<open>The \<open>body?: any\<close> argument: absent (or \<open>null\<close>), a string, or an object.\<close>

datatype request_body = NoBody | StringBody string | ObjectBody jsval

record http_request =
  req_method :: http_method
  req_url :: string
  req_headers :: "string \<Rightarrow> string option"
  req_body :: "string option"

record http_response =
  resp_status :: nat
  resp_body :: jsval

text \<open>
  What a request does to the outside, in order: a call of the rate limiter for an account
  (with the write flag, and whether the check passed), an HTTP fetch, a wait before a retry.
\<close>

datatype api_event =
    RateLimitChecked string bool bool
  | Fetched http_request
  | BackedOff nat

text \<open>
  The surroundings of the client: the configured base URL, the headers of
  \<open>auth.getAuthHeaders()\<close>, the platform's \<open>JSON.stringify\<close>, \<open>String\<close> and
  \<open>URLSearchParams.toString\<close>, the verdict of \<open>globalRateLimiter.checkRateLimit\<close> (nothing
  when the check passes, the thrown value when it rejects) and the server's response to a
  request, both as functions of what has happened so far, the text of the error made from a
  failed response, and the number of retries.
\<close>

record api_env =
  baseUrl :: string
  authHeaders :: "string \<Rightarrow> string option"
  json_stringify :: "jsval \<Rightarrow> string"
  to_String :: "jsval \<Rightarrow> string"
  urlParams_toString :: "(string \<times> string) list \<Rightarrow> string"
  rateLimiter :: "api_event list \<Rightarrow> string \<Rightarrow> bool \<Rightarrow> thrown option"
  server :: "api_event list \<Rightarrow> http_request \<Rightarrow> http_response"
  error_text :: "http_response \<Rightarrow> string"
  maxRetries :: nat

definition checkRateLimit ::
  "api_env \<Rightarrow> string \<Rightarrow> bool \<Rightarrow> api_event list \<Rightarrow> unit outcome \<times> api_event list" where
  "checkRateLimit env accountId isWriteCall tr =
     (case rateLimiter env tr accountId isWriteCall of
        None \<Rightarrow> (Returns (), tr @ [RateLimitChecked accountId isWriteCall True])
      | Some e \<Rightarrow> (Throws e, tr @ [RateLimitChecked accountId isWriteCall False]))"

text \<open>
  Modelled from the spec: \<open>MetaApiErrorHandler.handleResponse\<close> is not among the sources.
  The spec's failure model is "retry on 5xx, surface 4xx": a response with a 2xx status gives
  its body, every other response is thrown as an API error carrying the status.
\<close>

definition handleResponse :: "api_env \<Rightarrow> http_response \<Rightarrow> jsval outcome" where
  "handleResponse env response =
     (if 200 \<le> resp_status response \<and> resp_status response < 300
      then Returns (resp_body response)
      else Throws (HttpError (resp_status response) (error_text env response)))"

text \<open>Modelled from the spec: the errors that are retried are the 5xx responses.\<close>

definition is_server_error :: "thrown \<Rightarrow> bool" where
  "is_server_error e = (case e of HttpError st m \<Rightarrow> 500 \<le> st \<and> st < 600 | _ \<Rightarrow> False)"

text \<open>
  Modelled from the spec: \<open>retryWithBackoff\<close> is not among the sources. The spec says
  "retry-with-backoff" and "retry on 5xx, surface 4xx": the operation is run; when it throws
  a server error and retries are left, the wrapper waits and runs it again; every other
  error, and the error of the last attempt, goes to the caller. The first argument is the
  number of retries left, the second the number of the attempt.
\<close>

fun retryWithBackoff ::
  "nat \<Rightarrow> nat \<Rightarrow> (api_event list \<Rightarrow> 'a outcome \<times> api_event list) \<Rightarrow> api_event list
     \<Rightarrow> 'a outcome \<times> api_event list" where
  "retryWithBackoff 0 attempt fn tr = fn tr"
| "retryWithBackoff (Suc n) attempt fn tr =
     (case fn tr of
        (Returns v, tr') \<Rightarrow> (Returns v, tr')
      | (Throws e, tr') \<Rightarrow>
          if is_server_error e
          then retryWithBackoff n (Suc attempt) fn (tr' @ [BackedOff attempt])
          else (Throws e, tr'))"

text \<open>\<open>if (body && method !== "GET")\<close>: the body sent, and the content type set for it.\<close>

definition truthy_body :: "request_body \<Rightarrow> bool" where
  "truthy_body body = (case body of NoBody \<Rightarrow> False | StringBody s \<Rightarrow> s \<noteq> [] | ObjectBody v \<Rightarrow> True)"

definition build_request ::
  "api_env \<Rightarrow> string \<Rightarrow> http_method \<Rightarrow> request_body \<Rightarrow> http_request" where
  "build_request env endpoint method body =
     (let url = baseUrl env @ ''/'' @ endpoint;
          headers = authHeaders env
      in if truthy_body body \<and> method \<noteq> GET then
           (case body of
              StringBody s \<Rightarrow>
                \<lparr>req_method = method, req_url = url,
                 req_headers = headers(''Content-Type'' \<mapsto> ''application/x-www-form-urlencoded''),
                 req_body = Some s\<rparr>
            | ObjectBody v \<Rightarrow>
                \<lparr>req_method = method, req_url = url,
                 req_headers = headers(''Content-Type'' \<mapsto> ''application/json''),
                 req_body = Some (json_stringify env v)\<rparr>
            | NoBody \<Rightarrow>
                \<lparr>req_method = method, req_url = url, req_headers = headers, req_body = None\<rparr>)
         else \<lparr>req_method = method, req_url = url, req_headers = headers, req_body = None\<rparr>)"

text \<open>The operation handed to \<open>retryWithBackoff\<close>: one fetch and the reading of its response.\<close>

definition fetch_once ::
  "api_env \<Rightarrow> http_request \<Rightarrow> api_event list \<Rightarrow> jsval outcome \<times> api_event list" where
  "fetch_once env req tr = (handleResponse env (server env tr req), tr @ [Fetched req])"

text \<open>\<open>if (accountId) { await globalRateLimiter.checkRateLimit(accountId, isWriteCall); }\<close>\<close>

definition rate_limit_step ::
  "api_env \<Rightarrow> string option \<Rightarrow> bool \<Rightarrow> api_event list \<Rightarrow> unit outcome \<times> api_event list" where
  "rate_limit_step env accountId isWriteCall tr =
     (case accountId of
        None \<Rightarrow> (Returns (), tr)
      | Some a \<Rightarrow> if a \<noteq> [] then checkRateLimit env a isWriteCall tr else (Returns (), tr))"

definition makeRequest ::
  "api_env \<Rightarrow> string \<Rightarrow> http_method \<Rightarrow> request_body \<Rightarrow> string option \<Rightarrow> bool
     \<Rightarrow> api_event list \<Rightarrow> jsval outcome \<times> api_event list" where
  "makeRequest env endpoint method body accountId isWriteCall tr =
     (case rate_limit_step env accountId isWriteCall tr of
        (Throws e, tr1) \<Rightarrow> (Throws e, tr1)
      | (Returns u, tr1) \<Rightarrow>
          retryWithBackoff (maxRetries env) 0
            (fetch_once env (build_request env endpoint method body)) tr1)"

text \<open>
  \<open>buildQueryString\<close>: entries that are \<open>undefined\<close> or \<open>null\<close> are left out, arrays and
  objects are written with \<open>JSON.stringify\<close>, every other value with \<open>String\<close>.
\<close>

definition buildQueryString :: "api_env \<Rightarrow> (string \<times> jsval) list \<Rightarrow> string" where
  "buildQueryString env params =
     urlParams_toString env
       (map (\<lambda>(k, v). (k, case v of
                            JArr xs \<Rightarrow> json_stringify env v
                          | JObj kvs \<Rightarrow> json_stringify env v
                          | _ \<Rightarrow> to_String env v))
          (filter (\<lambda>(k, v). v \<noteq> JUndefined \<and> v \<noteq> JNull) params))"

definition getPaginatedData ::
  "api_env \<Rightarrow> string \<Rightarrow> (string \<times> jsval) list \<Rightarrow> string option \<Rightarrow> api_event list
     \<Rightarrow> jsval outcome \<times> api_event list" where
  "getPaginatedData env endpoint params accountId tr =
     (let query = buildQueryString env params;
          fullEndpoint = (if query \<noteq> [] then endpoint @ ''?'' @ query else endpoint)
      in makeRequest env fullEndpoint GET NoBody accountId False tr)"

definition postData ::
  "api_env \<Rightarrow> string \<Rightarrow> (string \<times> jsval) list \<Rightarrow> string option \<Rightarrow> api_event list
     \<Rightarrow> jsval outcome \<times> api_event list" where
  "postData env endpoint data accountId tr =
     makeRequest env endpoint POST (StringBody (buildQueryString env data)) accountId True tr"

definition deleteResource ::
  "api_env \<Rightarrow> string \<Rightarrow> string option \<Rightarrow> api_event list \<Rightarrow> jsval outcome \<times> api_event list" where
  "deleteResource env endpoint accountId tr =
     makeRequest env endpoint DELETE NoBody accountId True tr"

definition is_fetch :: "api_event \<Rightarrow> bool" where
  "is_fetch ev = (case ev of Fetched r \<Rightarrow> True | _ \<Rightarrow> False)"

lemma retryWithBackoff_server_error:
  assumes "handleResponse env (server env tr req) = Throws e" and "is_server_error e"
  shows "retryWithBackoff (Suc n) k (fetch_once env req) tr
           = retryWithBackoff n (Suc k) (fetch_once env req) (tr @ [Fetched req, BackedOff k])"
proof -
  have "fetch_once env req tr = (Throws e, tr @ [Fetched req])"
    using assms(1) by (simp add: fetch_once_def)
  then show ?thesis using assms(2) by simp
qed

lemma retryWithBackoff_other_error:
  assumes "handleResponse env (server env tr req) = Throws e" and "\<not> is_server_error e"
  shows "retryWithBackoff n k (fetch_once env req) tr = (Throws e, tr @ [Fetched req])"
proof -
  have "fetch_once env req tr = (Throws e, tr @ [Fetched req])"
    using assms(1) by (simp add: fetch_once_def)
  then show ?thesis using assms(2) by (cases n) simp_all
qed

lemma retryWithBackoff_success:
  assumes "handleResponse env (server env tr req) = Returns v"
  shows "retryWithBackoff n k (fetch_once env req) tr = (Returns v, tr @ [Fetched req])"
proof -
  have "fetch_once env req tr = (Returns v, tr @ [Fetched req])"
    using assms(1) by (simp add: fetch_once_def)
  then show ?thesis by (cases n) simp_all
qed

lemma retryWithBackoff_starts_with_fetch:
  "\<exists>rest. snd (retryWithBackoff n k (fetch_once env req) tr) = tr @ Fetched req # rest"
proof (induction n arbitrary: k tr)
  case 0
  then show ?case by (simp add: fetch_once_def)
next
  case (Suc n)
  show ?case
  proof (cases "handleResponse env (server env tr req)")
    case (Returns v)
    from retryWithBackoff_success [OF this] show ?thesis by simp
  next
    case (Throws e)
    show ?thesis
    proof (cases "is_server_error e")
      case True
      from Suc.IH [of "Suc k" "tr @ [Fetched req, BackedOff k]"] obtain rest where
        "snd (retryWithBackoff n (Suc k) (fetch_once env req) (tr @ [Fetched req, BackedOff k]))
           = (tr @ [Fetched req, BackedOff k]) @ Fetched req # rest" ..
      with retryWithBackoff_server_error [OF Throws True, of n k] show ?thesis by simp
    next
      case False
      from retryWithBackoff_other_error [OF Throws False] show ?thesis by simp
    qed
  qed
qed

lemma makeRequest_checked:
  assumes "a \<noteq> []"
  shows "\<exists>rest. snd (makeRequest env endpoint meth body (Some a) isWriteCall tr)
           = tr @ RateLimitChecked a isWriteCall (rateLimiter env tr a isWriteCall = None) # rest
         \<and> (rateLimiter env tr a isWriteCall \<noteq> None \<longrightarrow>
              rest = [] \<and> (\<exists>e. fst (makeRequest env endpoint meth body (Some a) isWriteCall tr)
                                  = Throws e))
         \<and> (rateLimiter env tr a isWriteCall = None \<longrightarrow>
              (\<exists>rest'. rest = Fetched (build_request env endpoint meth body) # rest'))"
proof (cases "rateLimiter env tr a isWriteCall")
  case None
  let ?tr1 = "tr @ [RateLimitChecked a isWriteCall True]"
  let ?req = "build_request env endpoint meth body"
  from retryWithBackoff_starts_with_fetch [of "maxRetries env" 0 env ?req ?tr1]
  obtain rest' where
    "snd (retryWithBackoff (maxRetries env) 0 (fetch_once env ?req) ?tr1)
       = ?tr1 @ Fetched ?req # rest'" ..
  with None assms
  have "snd (makeRequest env endpoint meth body (Some a) isWriteCall tr)
          = tr @ RateLimitChecked a isWriteCall True # Fetched ?req # rest'"
    by (simp add: makeRequest_def rate_limit_step_def checkRateLimit_def)
  with None show ?thesis by simp
next
  case (Some e)
  with assms
  have "makeRequest env endpoint meth body (Some a) isWriteCall tr
          = (Throws e, tr @ [RateLimitChecked a isWriteCall False])"
    by (simp add: makeRequest_def rate_limit_step_def checkRateLimit_def)
  with Some show ?thesis by simp
qed

text \<open>
  Claim C4. A request made by \<open>makeRequest\<close> with a non-empty account id first calls the
  rate limiter for that account with the request's write flag; no fetch happens before that
  call, and none at all when the check rejects (the rejection goes to the caller). When the
  check passes, the fetch follows. The POST and DELETE helpers \<open>postData\<close> and
  \<open>deleteResource\<close> call the limiter with the write flag set.
\<close>

theorem makeRequest_rate_limit_before_fetch:
  assumes "a \<noteq> []"
  shows "(\<exists>ok rest.
            snd (makeRequest env endpoint meth body (Some a) isWriteCall tr)
              = tr @ RateLimitChecked a isWriteCall ok # rest
            \<and> ok = (rateLimiter env tr a isWriteCall = None)
            \<and> (\<not> ok \<longrightarrow> rest = []
                  \<and> (\<exists>e. fst (makeRequest env endpoint meth body (Some a) isWriteCall tr)
                            = Throws e))
            \<and> (ok \<longrightarrow> (\<exists>rest'. rest = Fetched (build_request env endpoint meth body) # rest'))
            \<and> ((\<exists>ev \<in> set rest. is_fetch ev) \<longrightarrow> ok))
       \<and> (\<exists>ok rest. snd (postData env endpoint params (Some a) tr)
                       = tr @ RateLimitChecked a True ok # rest
                     \<and> (\<not> ok \<longrightarrow> rest = []))
       \<and> (\<exists>ok rest. snd (deleteResource env endpoint (Some a) tr)
                       = tr @ RateLimitChecked a True ok # rest
                     \<and> (\<not> ok \<longrightarrow> rest = []))"
proof -
  have gen: "\<And>endpoint meth body isWriteCall.
    \<exists>ok rest.
       snd (makeRequest env endpoint meth body (Some a) isWriteCall tr)
         = tr @ RateLimitChecked a isWriteCall ok # rest
       \<and> ok = (rateLimiter env tr a isWriteCall = None)
       \<and> (\<not> ok \<longrightarrow> rest = []
             \<and> (\<exists>e. fst (makeRequest env endpoint meth body (Some a) isWriteCall tr)
                       = Throws e))
       \<and> (ok \<longrightarrow> (\<exists>rest'. rest = Fetched (build_request env endpoint meth body) # rest'))
       \<and> ((\<exists>ev \<in> set rest. is_fetch ev) \<longrightarrow> ok)"
  proof -
    fix endpoint meth body isWriteCall
    from makeRequest_checked [OF assms, of env endpoint meth body isWriteCall tr]
    obtain rest where all:
      "snd (makeRequest env endpoint meth body (Some a) isWriteCall tr)
           = tr @ RateLimitChecked a isWriteCall (rateLimiter env tr a isWriteCall = None) # rest
       \<and> (rateLimiter env tr a isWriteCall \<noteq> None \<longrightarrow>
              rest = [] \<and> (\<exists>e. fst (makeRequest env endpoint meth body (Some a) isWriteCall tr)
                                  = Throws e))
       \<and> (rateLimiter env tr a isWriteCall = None \<longrightarrow>
              (\<exists>rest'. rest = Fetched (build_request env endpoint meth body) # rest'))" ..
    from all have
      r: "snd (makeRequest env endpoint meth body (Some a) isWriteCall tr)
           = tr @ RateLimitChecked a isWriteCall (rateLimiter env tr a isWriteCall = None) # rest"
      and no: "rateLimiter env tr a isWriteCall \<noteq> None \<longrightarrow>
              rest = [] \<and> (\<exists>e. fst (makeRequest env endpoint meth body (Some a) isWriteCall tr)
                                  = Throws e)"
      and yes: "rateLimiter env tr a isWriteCall = None \<longrightarrow>
              (\<exists>rest'. rest = Fetched (build_request env endpoint meth body) # rest')"
      by simp_all
    let ?ok = "rateLimiter env tr a isWriteCall = None"
    from no have fetched: "(\<exists>ev \<in> set rest. is_fetch ev) \<longrightarrow> ?ok"
      by (cases "rateLimiter env tr a isWriteCall") simp_all
    from no have no': "\<not> ?ok \<longrightarrow> rest = []
             \<and> (\<exists>e. fst (makeRequest env endpoint meth body (Some a) isWriteCall tr)
                       = Throws e)" .
    have "snd (makeRequest env endpoint meth body (Some a) isWriteCall tr)
         = tr @ RateLimitChecked a isWriteCall ?ok # rest
       \<and> ?ok = (rateLimiter env tr a isWriteCall = None)
       \<and> (\<not> ?ok \<longrightarrow> rest = []
             \<and> (\<exists>e. fst (makeRequest env endpoint meth body (Some a) isWriteCall tr)
                       = Throws e))
       \<and> (?ok \<longrightarrow> (\<exists>rest'. rest = Fetched (build_request env endpoint meth body) # rest'))
       \<and> ((\<exists>ev \<in> set rest. is_fetch ev) \<longrightarrow> ?ok)"
      using r no' yes fetched by (intro conjI refl)
    then show "\<exists>ok rest.
       snd (makeRequest env endpoint meth body (Some a) isWriteCall tr)
         = tr @ RateLimitChecked a isWriteCall ok # rest
       \<and> ok = (rateLimiter env tr a isWriteCall = None)
       \<and> (\<not> ok \<longrightarrow> rest = []
             \<and> (\<exists>e. fst (makeRequest env endpoint meth body (Some a) isWriteCall tr)
                       = Throws e))
       \<and> (ok \<longrightarrow> (\<exists>rest'. rest = Fetched (build_request env endpoint meth body) # rest'))
       \<and> ((\<exists>ev \<in> set rest. is_fetch ev) \<longrightarrow> ok)"
      by (rule exI [of _ ?ok, OF exI [of _ rest]])
  qed
  have post: "\<exists>ok rest. snd (postData env endpoint params (Some a) tr)
                       = tr @ RateLimitChecked a True ok # rest \<and> (\<not> ok \<longrightarrow> rest = [])"
  proof -
    from makeRequest_checked
      [OF assms, of env endpoint POST "StringBody (buildQueryString env params)" True tr]
    obtain rest where
      "snd (makeRequest env endpoint POST (StringBody (buildQueryString env params)) (Some a)
              True tr)
         = tr @ RateLimitChecked a True (rateLimiter env tr a True = None) # rest
       \<and> (rateLimiter env tr a True \<noteq> None \<longrightarrow>
            rest = [] \<and> (\<exists>e. fst (makeRequest env endpoint POST
                              (StringBody (buildQueryString env params)) (Some a) True tr)
                           = Throws e))
       \<and> (rateLimiter env tr a True = None \<longrightarrow>
            (\<exists>rest'. rest = Fetched (build_request env endpoint POST
                         (StringBody (buildQueryString env params))) # rest'))" ..
    then have "snd (postData env endpoint params (Some a) tr)
                 = tr @ RateLimitChecked a True (rateLimiter env tr a True = None) # rest
               \<and> (\<not> (rateLimiter env tr a True = None) \<longrightarrow> rest = [])"
      by (simp add: postData_def)
    then show ?thesis by (intro exI)
  qed
  have del: "\<exists>ok rest. snd (deleteResource env endpoint (Some a) tr)
                       = tr @ RateLimitChecked a True ok # rest \<and> (\<not> ok \<longrightarrow> rest = [])"
  proof -
    from makeRequest_checked [OF assms, of env endpoint DELETE NoBody True tr]
    obtain rest where
      "snd (makeRequest env endpoint DELETE NoBody (Some a) True tr)
         = tr @ RateLimitChecked a True (rateLimiter env tr a True = None) # rest
       \<and> (rateLimiter env tr a True \<noteq> None \<longrightarrow>
            rest = [] \<and> (\<exists>e. fst (makeRequest env endpoint DELETE NoBody (Some a) True tr)
                           = Throws e))
       \<and> (rateLimiter env tr a True = None \<longrightarrow>
            (\<exists>rest'. rest = Fetched (build_request env endpoint DELETE NoBody) # rest'))" ..
    then have "snd (deleteResource env endpoint (Some a) tr)
                 = tr @ RateLimitChecked a True (rateLimiter env tr a True = None) # rest
               \<and> (\<not> (rateLimiter env tr a True = None) \<longrightarrow> rest = [])"
      by (simp add: deleteResource_def)
    then show ?thesis by (intro exI)
  qed
  from gen [of endpoint meth body isWriteCall] post del show ?thesis by (intro conjI)
qed

text \<open>
  Surroundings for the concrete runs below: the limiter rejects write calls and lets every
  other call pass; the server answers the first attempt of a request with 503 and the later
  ones with 200, and every request under \<open>missing\<close> with 404.
\<close>

definition sample_api_env :: api_env where
  "sample_api_env =
     \<lparr>baseUrl = ''https://graph.facebook.com/v23.0'',
      authHeaders = [''Authorization'' \<mapsto> ''Bearer EAAtoken0001''],
      json_stringify = (\<lambda>j. ''{}''),
      to_String = (\<lambda>j. case j of JStr s \<Rightarrow> s | _ \<Rightarrow> ''''),
      urlParams_toString = (\<lambda>ps. concat (map (\<lambda>(k, v). k @ ''='' @ v @ ''&'') ps)),
      rateLimiter = (\<lambda>tr a w. if w then Some (Error ''Rate limit exceeded'') else None),
      server = (\<lambda>tr req.
         if req_url req = ''https://graph.facebook.com/v23.0/missing''
         then \<lparr>resp_status = 404, resp_body = JNull\<rparr>
         else if filter is_fetch tr = [] then \<lparr>resp_status = 503, resp_body = JNull\<rparr>
         else \<lparr>resp_status = 200, resp_body = JObj [(''data'', JArr [])]\<rparr>),
      error_text = (\<lambda>r. ''request failed''),
      maxRetries = 3\<rparr>"

theorem makeRequest_rate_limit_before_fetch_witness:
  "''act_1'' \<noteq> []
   \<and> (\<exists>rest'. snd (makeRequest sample_api_env ''act_1/campaigns'' GET NoBody (Some ''act_1'')
                      False [])
               = RateLimitChecked ''act_1'' False True
                 # Fetched (build_request sample_api_env ''act_1/campaigns'' GET NoBody) # rest')
   \<and> snd (postData sample_api_env ''act_1/campaigns'' [(''name'', JStr ''Spring'')]
             (Some ''act_1'') [])
       = [RateLimitChecked ''act_1'' True False]"
proof -
  have ne: "''act_1'' \<noteq> []" by simp
  note th = makeRequest_rate_limit_before_fetch [OF ne, of sample_api_env "''act_1/campaigns''"
      GET NoBody False "[]" "[(''name'', JStr ''Spring'')]"]
  have pass: "rateLimiter sample_api_env [] ''act_1'' False = None"
    by (simp add: sample_api_env_def)
  have reject: "rateLimiter sample_api_env [] ''act_1'' True = Some (Error ''Rate limit exceeded'')"
    by (simp add: sample_api_env_def)
  from th [THEN conjunct1] obtain ok where
    "\<exists>rest. snd (makeRequest sample_api_env ''act_1/campaigns'' GET NoBody (Some ''act_1'')
                     False [])
          = [] @ RateLimitChecked ''act_1'' False ok # rest
     \<and> ok = (rateLimiter sample_api_env [] ''act_1'' False = None)
     \<and> (\<not> ok \<longrightarrow> rest = []
           \<and> (\<exists>e. fst (makeRequest sample_api_env ''act_1/campaigns'' GET NoBody
                           (Some ''act_1'') False []) = Throws e))
     \<and> (ok \<longrightarrow> (\<exists>rest'. rest = Fetched (build_request sample_api_env ''act_1/campaigns''
                                    GET NoBody) # rest'))
     \<and> ((\<exists>ev \<in> set rest. is_fetch ev) \<longrightarrow> ok)" ..
  then obtain rest where all:
    "snd (makeRequest sample_api_env ''act_1/campaigns'' GET NoBody (Some ''act_1'') False [])
          = [] @ RateLimitChecked ''act_1'' False ok # rest
     \<and> ok = (rateLimiter sample_api_env [] ''act_1'' False = None)
     \<and> (\<not> ok \<longrightarrow> rest = []
           \<and> (\<exists>e. fst (makeRequest sample_api_env ''act_1/campaigns'' GET NoBody
                           (Some ''act_1'') False []) = Throws e))
     \<and> (ok \<longrightarrow> (\<exists>rest'. rest = Fetched (build_request sample_api_env ''act_1/campaigns''
                                    GET NoBody) # rest'))
     \<and> ((\<exists>ev \<in> set rest. is_fetch ev) \<longrightarrow> ok)" ..
  then have
    g: "snd (makeRequest sample_api_env ''act_1/campaigns'' GET NoBody (Some ''act_1'') False [])
          = [] @ RateLimitChecked ''act_1'' False ok # rest"
    and ok: "ok = (rateLimiter sample_api_env [] ''act_1'' False = None)"
    and f: "ok \<longrightarrow> (\<exists>rest'. rest = Fetched (build_request sample_api_env ''act_1/campaigns''
                                    GET NoBody) # rest')"
    by simp_all
  from ok pass have "ok" by simp
  with g f have a: "\<exists>rest'. snd (makeRequest sample_api_env ''act_1/campaigns'' GET NoBody
                                   (Some ''act_1'') False [])
               = RateLimitChecked ''act_1'' False True
                 # Fetched (build_request sample_api_env ''act_1/campaigns'' GET NoBody) # rest'"
    by auto
  have "snd (postData sample_api_env ''act_1/campaigns'' [(''name'', JStr ''Spring'')]
               (Some ''act_1'') [])
          = [RateLimitChecked ''act_1'' True False]"
    by (simp add: postData_def makeRequest_def rate_limit_step_def checkRateLimit_def reject)
  with ne a show ?thesis by blast
qed

lemma retryWithBackoff_all_server_errors:
  assumes "\<forall>t. 500 \<le> resp_status (server env t req) \<and> resp_status (server env t req) < 600"
  shows "\<exists>rest st m. retryWithBackoff n k (fetch_once env req) tr
                        = (Throws (HttpError st m), tr @ rest)
                      \<and> length (filter is_fetch rest) = Suc n"
proof (induction n arbitrary: k tr)
  case 0
  from assms have "500 \<le> resp_status (server env tr req)" by blast
  then have "handleResponse env (server env tr req)
      = Throws (HttpError (resp_status (server env tr req)) (error_text env (server env tr req)))"
    by (simp add: handleResponse_def)
  then have "retryWithBackoff 0 k (fetch_once env req) tr
      = (Throws (HttpError (resp_status (server env tr req))
                   (error_text env (server env tr req))), tr @ [Fetched req])"
    by (simp add: fetch_once_def)
  moreover have "length (filter is_fetch [Fetched req]) = Suc 0" by (simp add: is_fetch_def)
  ultimately show ?case by blast
next
  case (Suc n)
  let ?e = "HttpError (resp_status (server env tr req)) (error_text env (server env tr req))"
  from assms have b: "500 \<le> resp_status (server env tr req)"
      "resp_status (server env tr req) < 600"
    by blast+
  from b have h: "handleResponse env (server env tr req) = Throws ?e"
    by (simp add: handleResponse_def)
  from b have s: "is_server_error ?e" by (simp add: is_server_error_def)
  from Suc.IH [of "Suc k" "tr @ [Fetched req, BackedOff k]"] obtain rest st m where
    r: "retryWithBackoff n (Suc k) (fetch_once env req) (tr @ [Fetched req, BackedOff k])
          = (Throws (HttpError st m), (tr @ [Fetched req, BackedOff k]) @ rest)"
    and l: "length (filter is_fetch rest) = Suc n"
    by blast
  have "retryWithBackoff (Suc n) k (fetch_once env req) tr
          = (Throws (HttpError st m), tr @ ([Fetched req, BackedOff k] @ rest))"
    using retryWithBackoff_server_error [OF h s, of n k] r by simp
  moreover have "length (filter is_fetch ([Fetched req, BackedOff k] @ rest)) = Suc (Suc n)"
    using l by (simp add: is_fetch_def)
  ultimately show ?case by blast
qed

lemma makeRequest_after_check:
  assumes "rate_limit_step env accountId isWriteCall tr = (Returns (), tr1)"
  shows "makeRequest env endpoint meth body accountId isWriteCall tr
           = retryWithBackoff (maxRetries env) 0
               (fetch_once env (build_request env endpoint meth body)) tr1"
  using assms by (simp add: makeRequest_def)

text \<open>
  Claim C1. For a request made through \<open>makeRequest\<close> (after the rate-limit step has passed):
  when the response to the fetch has a 4xx status, the error is given to the caller after that
  single fetch, without a retry; when it has a 5xx status and the configuration allows a
  retry, the client waits and fetches again; and when every response is a 5xx, the request is
  fetched once and retried \<open>maxRetries\<close> times before the error goes to the caller.
\<close>

theorem makeRequest_retries_5xx_surfaces_4xx:
  assumes "rate_limit_step env accountId isWriteCall tr = (Returns (), tr1)"
    and "req = build_request env endpoint meth body"
    and "st = resp_status (server env tr1 req)"
  shows "(400 \<le> st \<and> st < 500 \<longrightarrow>
            makeRequest env endpoint meth body accountId isWriteCall tr
              = (Throws (HttpError st (error_text env (server env tr1 req))),
                 tr1 @ [Fetched req]))
       \<and> (500 \<le> st \<and> st < 600 \<and> 0 < maxRetries env \<longrightarrow>
            (\<exists>rest. snd (makeRequest env endpoint meth body accountId isWriteCall tr)
                      = tr1 @ [Fetched req, BackedOff 0, Fetched req] @ rest))
       \<and> ((\<forall>t. 500 \<le> resp_status (server env t req) \<and> resp_status (server env t req) < 600) \<longrightarrow>
            (\<exists>rest st' m. makeRequest env endpoint meth body accountId isWriteCall tr
                            = (Throws (HttpError st' m), tr1 @ rest)
                          \<and> length (filter is_fetch rest) = Suc (maxRetries env)))"
proof (intro conjI impI)
  note mk = makeRequest_after_check [OF assms(1), of endpoint meth body]
  let ?e = "HttpError st (error_text env (server env tr1 req))"
  have h: "\<not> (200 \<le> st \<and> st < 300) \<Longrightarrow> handleResponse env (server env tr1 req) = Throws ?e"
    using assms(3) by (simp add: handleResponse_def)
  {
    assume c: "400 \<le> st \<and> st < 500"
    then have "handleResponse env (server env tr1 req) = Throws ?e" using h by simp
    moreover from c have "\<not> is_server_error ?e" by (simp add: is_server_error_def)
    ultimately have "retryWithBackoff (maxRetries env) 0 (fetch_once env req) tr1
                       = (Throws ?e, tr1 @ [Fetched req])"
      by (rule retryWithBackoff_other_error)
    then show "makeRequest env endpoint meth body accountId isWriteCall tr
                 = (Throws ?e, tr1 @ [Fetched req])"
      using mk assms(2) by simp
  }
  {
    assume c: "500 \<le> st \<and> st < 600 \<and> 0 < maxRetries env"
    then obtain n where n: "maxRetries env = Suc n" by (cases "maxRetries env") auto
    from c have hh: "handleResponse env (server env tr1 req) = Throws ?e" using h by simp
    from c have ss: "is_server_error ?e" by (simp add: is_server_error_def)
    from retryWithBackoff_starts_with_fetch [of n "Suc 0" env req "tr1 @ [Fetched req, BackedOff 0]"]
    obtain rest where
      "snd (retryWithBackoff n (Suc 0) (fetch_once env req) (tr1 @ [Fetched req, BackedOff 0]))
         = (tr1 @ [Fetched req, BackedOff 0]) @ Fetched req # rest" ..
    then have "snd (retryWithBackoff (maxRetries env) 0 (fetch_once env req) tr1)
                 = tr1 @ [Fetched req, BackedOff 0, Fetched req] @ rest"
      using retryWithBackoff_server_error [OF hh ss, of n 0] n by simp
    then have "snd (makeRequest env endpoint meth body accountId isWriteCall tr)
                 = tr1 @ [Fetched req, BackedOff 0, Fetched req] @ rest"
      using mk assms(2) by simp
    then show "\<exists>rest. snd (makeRequest env endpoint meth body accountId isWriteCall tr)
                      = tr1 @ [Fetched req, BackedOff 0, Fetched req] @ rest" ..
  }
  {
    assume "\<forall>t. 500 \<le> resp_status (server env t req) \<and> resp_status (server env t req) < 600"
    from retryWithBackoff_all_server_errors [OF this, of "maxRetries env" 0 tr1]
    show "\<exists>rest st' m. makeRequest env endpoint meth body accountId isWriteCall tr
                            = (Throws (HttpError st' m), tr1 @ rest)
                          \<and> length (filter is_fetch rest) = Suc (maxRetries env)"
      using mk assms(2) by simp
  }
qed

theorem makeRequest_retries_5xx_surfaces_4xx_witness:
  "rate_limit_step sample_api_env None False [] = (Returns (), [])
   \<and> resp_status (server sample_api_env [] (build_request sample_api_env ''missing'' GET NoBody))
       = 404
   \<and> makeRequest sample_api_env ''missing'' GET NoBody None False []
       = (Throws (HttpError 404 ''request failed''),
          [Fetched (build_request sample_api_env ''missing'' GET NoBody)])
   \<and> resp_status (server sample_api_env []
         (build_request sample_api_env ''me/adaccounts'' GET NoBody)) = 503
   \<and> (\<exists>rest. snd (makeRequest sample_api_env ''me/adaccounts'' GET NoBody None False [])
               = [Fetched (build_request sample_api_env ''me/adaccounts'' GET NoBody),
                  BackedOff 0,
                  Fetched (build_request sample_api_env ''me/adaccounts'' GET NoBody)] @ rest)
   \<and> (\<exists>rest st' m.
         makeRequest (sample_api_env\<lparr>server := (\<lambda>tr req. \<lparr>resp_status = 502, resp_body = JNull\<rparr>)\<rparr>)
           ''me/adaccounts'' GET NoBody None False []
           = (Throws (HttpError st' m), rest)
         \<and> length (filter is_fetch rest) = 4)"
proof -
  let ?down = "sample_api_env\<lparr>server := (\<lambda>tr req. \<lparr>resp_status = 502, resp_body = JNull\<rparr>)\<rparr>"
  let ?r1 = "build_request sample_api_env ''missing'' GET NoBody"
  let ?r2 = "build_request sample_api_env ''me/adaccounts'' GET NoBody"
  have step: "rate_limit_step sample_api_env None False [] = (Returns (), [])"
    by (simp add: rate_limit_step_def)
  have step': "rate_limit_step ?down None False [] = (Returns (), [])"
    by (simp add: rate_limit_step_def)
  have s1: "resp_status (server sample_api_env [] ?r1) = 404"
    by (simp add: sample_api_env_def build_request_def truthy_body_def)
  have s2: "resp_status (server sample_api_env [] ?r2) = 503"
    by (simp add: sample_api_env_def build_request_def truthy_body_def)
  have retries: "maxRetries sample_api_env = 3" "maxRetries ?down = 3"
    by (simp_all add: sample_api_env_def)
  have etxt: "error_text sample_api_env (server sample_api_env [] ?r1) = ''request failed''"
    by (simp add: sample_api_env_def)
  have q1: "?r1 = build_request sample_api_env ''missing'' GET NoBody" by (rule refl)
  have q2: "?r2 = build_request sample_api_env ''me/adaccounts'' GET NoBody" by (rule refl)
  have q3: "build_request ?down ''me/adaccounts'' GET NoBody
              = build_request ?down ''me/adaccounts'' GET NoBody" by (rule refl)
  note t1 = makeRequest_retries_5xx_surfaces_4xx [OF step q1 s1 [symmetric]]
  note t2 = makeRequest_retries_5xx_surfaces_4xx [OF step q2 s2 [symmetric]]
  note t3 = makeRequest_retries_5xx_surfaces_4xx [OF step' q3 refl]
  have a: "makeRequest sample_api_env ''missing'' GET NoBody None False []
             = (Throws (HttpError 404 ''request failed''), [Fetched ?r1])"
    using t1 etxt by simp
  have b: "\<exists>rest. snd (makeRequest sample_api_env ''me/adaccounts'' GET NoBody None False [])
               = [Fetched ?r2, BackedOff 0, Fetched ?r2] @ rest"
    using t2 retries by simp
  have c: "\<exists>rest st' m. makeRequest ?down ''me/adaccounts'' GET NoBody None False []
             = (Throws (HttpError st' m), rest)
           \<and> length (filter is_fetch rest) = 4"
    using t3 retries by simp
  from step s1 a s2 b c show ?thesis by (intro conjI)
qed

end
